theory Spec2Isabelle
  imports Complex_Main
begin

section \<open>Exceptions\<close>

text \<open>
  The C++ exceptions the sources throw, each with its message. A function that can throw
  returns \<open>error + 'a\<close>, \<open>Inl\<close> being the exception. The last constructor marks an
  execution that leaves defined C++ behaviour (an access outside an array, an overflowing
  \<open>int\<close> counter); Eigen reports the former by a failed assertion when assertions are on.
\<close>

datatype error =
    domain_error string
  | invalid_argument string
  | evaluation_error string
  | logic_error string
  | undefined_behaviour string

section \<open>Matrix addition (\<open>stan/math/prim/fun/add.hpp\<close>)\<close>

text \<open>
  An Eigen matrix with dynamic dimensions: its number of rows and columns and its
  coefficients in Eigen's default column-major storage order. The scalar type is the
  template parameter; \<open>add\<close> needs only its \<open>+\<close>.
\<close>

record 'a matrix =
  rows :: nat
  cols :: nat
  coeffs :: "'a list"

definition wf_matrix :: "'a matrix \<Rightarrow> bool" where
  "wf_matrix m = (length (coeffs m) = rows m * cols m)"

definition coeff :: "'a matrix \<Rightarrow> nat \<Rightarrow> nat \<Rightarrow> 'a" where
  "coeff m i j = coeffs m ! (j * rows m + i)"

text \<open>
  Modelled from the spec: \<open>check_matching_dims\<close> is called by \<open>add\<close> but is not among the
  sources. The documentation of \<open>add\<close> states what it does: it throws
  \<open>std::invalid_argument\<close> if the two matrices do not have the same dimensions.
\<close>

definition check_matching_dims ::
  "string \<Rightarrow> string \<Rightarrow> 'a matrix \<Rightarrow> string \<Rightarrow> 'b matrix \<Rightarrow> error + unit" where
  "check_matching_dims function name1 y1 name2 y2 =
     (if rows y1 = rows y2 \<and> cols y1 = cols y2 then Inr ()
      else Inl (invalid_argument
        (function @ '': '' @ name1 @ '' and '' @ name2 @ '' must match in size'')))"

text \<open>Eigen's coefficient-wise sum \<open>m1 + m2\<close> of two matrices of equal dimensions.\<close>

definition matrix_plus :: "'a::plus matrix \<Rightarrow> 'a matrix \<Rightarrow> 'a matrix" where
  "matrix_plus m1 m2 =
     \<lparr>rows = rows m1, cols = cols m1, coeffs = map2 (+) (coeffs m1) (coeffs m2)\<rparr>"

definition add :: "'a::plus matrix \<Rightarrow> 'a matrix \<Rightarrow> error + 'a matrix" where
  "add m1 m2 =
     (case check_matching_dims ''add'' ''m1'' m1 ''m2'' m2 of
        Inl e \<Rightarrow> Inl e
      | Inr _ \<Rightarrow> Inr (matrix_plus m1 m2))"

section \<open>The node of the Newton solver (\<open>stan/math/laplace/lgp_newton_solver.hpp\<close>)\<close>

text \<open>
  In a node a \<open>double\<close> is modelled by a real number: the arithmetic of \<open>chain\<close> is exact,
  and the theorems about the node concern which nodes exist and which adjoints are read
  and written. (The solver, further below, is given for any arithmetic.) Nodes live in
  the arena of the \<open>ChainableStack\<close>; the address of a node is its index in creation
  order, so that an address is smaller exactly when the node was created earlier.
  Isabelle does not admit names that end in an underscore, so the members \<open>val_\<close>,
  \<open>adj_\<close>, \<open>vi_\<close>, \<open>phi_\<close>, \<open>theta_size_\<close>, \<open>theta_\<close>, \<open>J_\<close>, \<open>memalloc_\<close>, \<open>var_stack_\<close>
  and \<open>var_nochain_stack_\<close> are written without it.
\<close>

type_synonym addr = nat

text \<open>The members \<open>lgp_newton_solver_vari\<close> adds to its base class \<open>vari\<close>.\<close>

record lgp_newton_solver_fields =
  phi :: "addr list"
  theta_size :: nat
  theta :: "addr list"
  J :: "real list"

text \<open>
  Modelled from the spec: the base class \<open>vari\<close> and the \<open>ChainableStack\<close> are not among the
  sources. Following the spec's data model, a node stores a value and an adjoint
  initialised to 0, is allocated in the arena and is recorded on the tape in creation
  order. The field \<open>derived\<close> holds the members of the dynamic class: \<open>None\<close> for a plain
  \<open>vari\<close>, whose \<open>chain\<close> does nothing. The second constructor argument, which the source
  passes as \<open>false\<close> for the solver's output nodes, selects the stack the node is recorded
  on: \<open>var_stack_\<close>, the tape of nodes whose \<open>chain\<close> the reverse sweep calls, or
  \<open>var_nochain_stack_\<close>.
\<close>

record vari =
  val :: real
  adj :: real
  derived :: "lgp_newton_solver_fields option"

record ChainableStack =
  memalloc :: "vari list"
  var_stack :: "addr list"
  var_nochain_stack :: "addr list"

record var =
  vi :: addr

definition new_vari :: "real \<Rightarrow> bool \<Rightarrow> ChainableStack \<Rightarrow> addr \<times> ChainableStack" where
  "new_vari x stacked st =
     (let a = length (memalloc st);
          st' = st\<lparr>memalloc := memalloc st @ [\<lparr>val = x, adj = 0, derived = None\<rparr>]\<rparr>
      in (a, if stacked then st'\<lparr>var_stack := var_stack st' @ [a]\<rparr>
             else st'\<lparr>var_nochain_stack := var_nochain_stack st' @ [a]\<rparr>))"

definition value_of :: "var \<Rightarrow> ChainableStack \<Rightarrow> real" where
  "value_of v st = val (memalloc st ! vi v)"

text \<open>
  The class \<open>lgp_conditional_system\<close> is not among the sources. The source builds it from
  the global parameter, the numbers of samples and the sums, and reads these back; its
  member functions are taken as parameters, here for the \<open>double\<close> instantiation. The
  class \<open>lgp_dense_system\<close> of the sources has member functions of the same names; its
  \<open>solver_gradient\<close> is documented as the Jacobian of the solution with respect to the
  global parameter, by the implicit function theorem. The member functions are given for
  any type \<open>'d\<close> of numbers in place of \<open>double\<close>; for the node, whose values are real
  numbers, they are \<open>lgp_member_functions\<close>.
\<close>

record 'p lgp_conditional_system =
  get_phi :: 'p
  get_n_samples :: "real list"
  get_sums :: "real list"

record 'd member_functions =
  log_density :: "'d lgp_conditional_system \<Rightarrow> 'd list \<Rightarrow> 'd"
  cond_gradient :: "'d lgp_conditional_system \<Rightarrow> 'd list \<Rightarrow> 'd list"
  cond_hessian :: "'d lgp_conditional_system \<Rightarrow> 'd list \<Rightarrow> 'd list"
  solver_gradient :: "'d lgp_conditional_system \<Rightarrow> 'd list \<Rightarrow> 'd list"

type_synonym lgp_member_functions = "real member_functions"

subsection \<open>The constructor\<close>

text \<open>
  The loop \<open>for (int i = 0; i < theta_size_; i++) theta_[i] = new vari(theta_dbl(i), false)\<close>.
\<close>

function ctor_loop ::
  "real list \<Rightarrow> nat \<Rightarrow> addr list \<Rightarrow> ChainableStack \<Rightarrow> addr list \<times> ChainableStack" where
  "ctor_loop theta_dbl i arr st =
     (if i < length theta_dbl
      then (let (a, st') = new_vari (theta_dbl ! i) False st
            in ctor_loop theta_dbl (i + 1) (arr[i := a]) st')
      else (arr, st))"
  by pat_completeness auto
termination
  by (relation "measure (\<lambda>(theta_dbl, i, arr, st). length theta_dbl - i)") auto

declare ctor_loop.simps [simp del]

text \<open>
  \<open>new lgp_newton_solver_vari(phi, system, theta_dbl)\<close>. The base constructor
  \<open>vari(theta_dbl(0))\<close> creates the node itself, on the tape; reading \<open>theta_dbl(0)\<close> of an
  empty vector is outside the vector. The two pointer arrays come uninitialised from the
  arena; \<open>theta_[0] = this\<close> is then overwritten by the loop, which starts at \<open>i = 0\<close>.
\<close>

definition lgp_newton_solver_vari ::
  "lgp_member_functions \<Rightarrow> var \<Rightarrow> real lgp_conditional_system \<Rightarrow> real list \<Rightarrow>
     ChainableStack \<Rightarrow> error + (addr \<times> ChainableStack)" where
  "lgp_newton_solver_vari M p system theta_dbl st =
     (if theta_dbl = [] then Inl (undefined_behaviour ''theta_dbl(0) of an empty vector'')
      else
        let (this, st1) = new_vari (theta_dbl ! 0) True st;
            phi0 = replicate 1 undefined;
            n = length theta_dbl;
            theta0 = replicate n undefined;
            phi1 = phi0[0 := vi p];
            theta1 = theta0[0 := this];
            (theta2, st2) = ctor_loop theta_dbl 0 theta1 st1;
            jac = solver_gradient M system theta_dbl
        in Inr (this, st2\<lparr>memalloc := (memalloc st2)
                 [this := (memalloc st2 ! this)\<lparr>derived :=
                    Some \<lparr>phi = phi1, theta_size = n, theta = theta2, J = jac\<rparr>\<rparr>]\<rparr>))"

subsection \<open>The propagation operation \<open>chain\<close>\<close>

text \<open>
  The loop \<open>for (int i = 0; i < theta_size_; i++) phi_[0]->adj_ += theta_[i]->adj_ * J_[i]\<close>
  on the arena. An index outside an array or an address outside the arena is undefined.
\<close>

function chain_loop :: "lgp_newton_solver_fields \<Rightarrow> nat \<Rightarrow> vari list \<Rightarrow> error + vari list" where
  "chain_loop n i h =
     (if i < theta_size n
      then (if 0 < length (phi n) \<and> i < length (theta n) \<and> i < length (J n)
               \<and> phi n ! 0 < length h \<and> theta n ! i < length h
            then chain_loop n (i + 1)
                   (h[phi n ! 0 := (h ! (phi n ! 0))
                        \<lparr>adj := adj (h ! (phi n ! 0)) + adj (h ! (theta n ! i)) * J n ! i\<rparr>])
            else Inl (undefined_behaviour ''chain: access out of bounds''))
      else Inr h)"
  by pat_completeness auto
termination
  by (relation "measure (\<lambda>(n, i, h). theta_size n - i)") auto

declare chain_loop.simps [simp del]

text \<open>
  The virtual call \<open>chain()\<close> on the node at address \<open>this\<close>: the empty \<open>vari::chain\<close> for
  a plain node, the loop above for a solver node. (\<open>chain\<close> alone names a constant of
  the library.)
\<close>

definition chain_vari :: "addr \<Rightarrow> ChainableStack \<Rightarrow> error + ChainableStack" where
  "chain_vari this st =
     (if this < length (memalloc st)
      then (case derived (memalloc st ! this) of
              None \<Rightarrow> Inr st
            | Some n \<Rightarrow>
                (case chain_loop n 0 (memalloc st) of
                   Inl e \<Rightarrow> Inl e
                 | Inr h \<Rightarrow> Inr (st\<lparr>memalloc := h\<rparr>)))
      else Inl (undefined_behaviour ''chain: no node at this address''))"

text \<open>
  Modelled from the spec: \<open>init_dependent\<close>, by which a gradient computation seeds the
  adjoint of its root, is not among the sources. The spec's reverse sweep sets the
  adjoint of the root to 1.
\<close>

definition init_dependent :: "addr \<Rightarrow> ChainableStack \<Rightarrow> ChainableStack" where
  "init_dependent a st = st\<lparr>memalloc := (memalloc st)[a := (memalloc st ! a)\<lparr>adj := 1\<rparr>]\<rparr>"

section \<open>The Newton solver (\<open>stan/math/laplace/lgp_newton_solver.hpp\<close>)\<close>

text \<open>
  The solver computes with \<open>double\<close> numbers and vectors of them: floating-point
  arithmetic, which rounds, has infinities and NaN, and in which a division by zero has a
  result. The vector operations it calls are not among the sources (Eigen's \<open>+\<close>, unary
  \<open>-\<close>, product with a scalar and \<open>norm()\<close>, and the library's \<open>elt_divide\<close>, \<open>multiply\<close>
  and \<open>transpose\<close>). The solver is therefore given for any type \<open>'d\<close> of numbers, and all
  the arithmetic it uses is a parameter: a record with the vector operations, the sum,
  the product and the two comparisons of numbers the solver uses, and the numbers that its
  literals \<open>1\<close> and \<open>0.5\<close> denote. What is proved of the solver below holds for every
  such arithmetic, that of \<open>double\<close> too. A vector is the list of its coefficients;
  \<open>dot d g\<close> is \<open>multiply(transpose(d), g)(0)\<close>.
\<close>

record 'd arithmetic =
  elt_divide :: "'d list \<Rightarrow> 'd list \<Rightarrow> 'd list"
  vec_uminus :: "'d list \<Rightarrow> 'd list"
  vec_plus :: "'d list \<Rightarrow> 'd list \<Rightarrow> 'd list"
  scal :: "'d \<Rightarrow> 'd list \<Rightarrow> 'd list"
  dot :: "'d list \<Rightarrow> 'd list \<Rightarrow> 'd"
  vec_norm :: "'d list \<Rightarrow> 'd"
  dbl_plus :: "'d \<Rightarrow> 'd \<Rightarrow> 'd"
  dbl_times :: "'d \<Rightarrow> 'd \<Rightarrow> 'd"
  dbl_greater :: "'d \<Rightarrow> 'd \<Rightarrow> bool"
  dbl_less_eq :: "'d \<Rightarrow> 'd \<Rightarrow> bool"
  dbl_one :: 'd
  dbl_half :: 'd

subsection \<open>The message of the exception\<close>

text \<open>The decimal numeral that \<open>operator<<\<close> writes for a \<open>long int\<close>.\<close>

definition digit :: "nat \<Rightarrow> char" where
  "digit d = ''0123456789'' ! d"

function show_nat :: "nat \<Rightarrow> string" where
  "show_nat n = (if n < 10 then [digit n] else show_nat (n div 10) @ [digit (n mod 10)])"
  by pat_completeness auto
termination
  by (relation "measure (\<lambda>n. n)") auto

declare show_nat.simps [simp del]

definition show_long :: "int \<Rightarrow> string" where
  "show_long k = (if k < 0 then CHR ''-'' # show_nat (nat (- k)) else show_nat (nat k))"

definition max_steps_message :: "int \<Rightarrow> string" where
  "max_steps_message max_num_steps =
     ''lgp_newton_solver: max number of iterations:'' @ show_long max_num_steps @ '' exceeded.''"

subsection \<open>One Newton update\<close>

text \<open>
  The \<open>while\<close> loop of the line search. Nothing bounds the number of its rounds, so it is a
  partial function: \<open>None\<close> is the loop that never ends.
\<close>

partial_function (option) line_search_while ::
  "'d arithmetic \<Rightarrow> 'd member_functions \<Rightarrow> 'd lgp_conditional_system \<Rightarrow> 'd list \<Rightarrow> 'd list \<Rightarrow>
     'd \<Rightarrow> 'd \<Rightarrow> 'd \<Rightarrow> 'd \<Rightarrow> 'd list \<Rightarrow> 'd list option" where
  "line_search_while A M system theta_dbl direction c tau m alpha theta_candidate =
     (if dbl_greater A (log_density M system theta_candidate)
           (dbl_plus A (log_density M system theta_dbl) (dbl_times A c m))
      then line_search_while A M system theta_dbl direction c tau m (dbl_times A tau alpha)
             (vec_plus A theta_dbl (scal A (dbl_times A tau alpha) direction))
      else Some theta_candidate)"

text \<open>
  The body of the \<open>for\<close> loop between the test of the step count and the test of
  convergence: the new value of \<open>theta_dbl\<close>.
\<close>

definition newton_update ::
  "'d arithmetic \<Rightarrow> 'd member_functions \<Rightarrow> 'd lgp_conditional_system \<Rightarrow> bool \<Rightarrow> 'd list \<Rightarrow>
     'd list option" where
  "newton_update A M system line_search theta_dbl =
     (let gradient = cond_gradient M system theta_dbl;
          direction = vec_uminus A (elt_divide A gradient (cond_hessian M system theta_dbl))
      in if line_search = False then Some (vec_plus A theta_dbl direction)
         else
           let alpha = dbl_one A;
               c = dbl_half A;
               tau = dbl_half A;
               m = dot A direction gradient;
               theta_candidate = vec_plus A theta_dbl (scal A alpha direction)
           in line_search_while A M system theta_dbl direction c tau m alpha theta_candidate)"

subsection \<open>The solver for a \<open>double\<close> global parameter\<close>

text \<open>
  The counter \<open>i\<close> is an \<open>int\<close>, of 32 bits, the limit a \<open>long int\<close>: \<open>i++\<close> at the largest
  \<open>int\<close> is a signed overflow. The test of convergence is on the gradient that the update
  used, the gradient at \<open>theta_dbl\<close> before the update.
\<close>

definition INT_MAX :: int where
  "INT_MAX = 2147483647"

function newton_for ::
  "'d arithmetic \<Rightarrow> 'd member_functions \<Rightarrow> 'd lgp_conditional_system \<Rightarrow> 'd \<Rightarrow> int \<Rightarrow> bool \<Rightarrow>
     int \<Rightarrow> 'd list \<Rightarrow> (error + 'd list) option" where
  "newton_for A M system tol max_num_steps line_search i theta_dbl =
     (if i \<le> max_num_steps
      then (if i = max_num_steps
            then Some (Inl (evaluation_error (max_steps_message max_num_steps)))
            else (case newton_update A M system line_search theta_dbl of
                    None \<Rightarrow> None
                  | Some theta_new \<Rightarrow>
                      if dbl_less_eq A (vec_norm A (cond_gradient M system theta_dbl)) tol
                      then Some (Inr theta_new)
                      else if i = INT_MAX
                      then Some (Inl (undefined_behaviour ''i++ overflows int''))
                      else newton_for A M system tol max_num_steps line_search (i + 1) theta_new))
      else Some (Inr theta_dbl))"
  by pat_completeness auto
termination
  by (relation "measure (\<lambda>(A, M, system, tol, max_num_steps, line_search, i, theta_dbl).
        nat (max_num_steps - i))") auto

declare newton_for.simps [simp del]

text \<open>
  The first overload: the system has a \<open>double\<close> global parameter. The initial guess is
  taken with \<open>double\<close> coefficients, for which \<open>value_of\<close> is the identity.
\<close>

definition lgp_newton_solver ::
  "'d arithmetic \<Rightarrow> 'd member_functions \<Rightarrow> 'd list \<Rightarrow> 'd lgp_conditional_system \<Rightarrow> 'd \<Rightarrow> int \<Rightarrow>
     bool \<Rightarrow> (error + 'd list) option" where
  "lgp_newton_solver A M theta_0 system tol max_num_steps line_search =
     newton_for A M system tol max_num_steps line_search 0 theta_0"

subsection \<open>The solver for a \<open>var\<close> global parameter\<close>

text \<open>
  The second overload. It copies the system to \<open>system_dbl\<close>, with the value of the global
  parameter in place of the parameter, calls the first overload on the copy, constructs
  the node and returns handles to the node's output nodes. An exception of the first
  overload passes through, and so does its not returning. Reading the value of a global
  parameter that refers to no node is undefined. The numbers are those of the node, real
  numbers; the arithmetic stays a parameter.
\<close>

definition system_dbl :: "var lgp_conditional_system \<Rightarrow> ChainableStack \<Rightarrow> real lgp_conditional_system" where
  "system_dbl system st =
     \<lparr>get_phi = value_of (get_phi system) st,
      get_n_samples = get_n_samples system,
      get_sums = get_sums system\<rparr>"

definition lgp_newton_solver_var ::
  "real arithmetic \<Rightarrow> lgp_member_functions \<Rightarrow> real list \<Rightarrow> var lgp_conditional_system \<Rightarrow> real \<Rightarrow>
     int \<Rightarrow> bool \<Rightarrow> ChainableStack \<Rightarrow> (error + var list \<times> ChainableStack) option" where
  "lgp_newton_solver_var A M theta_0 system tol max_num_steps line_search st =
     (if \<not> vi (get_phi system) < length (memalloc st)
      then Some (Inl (undefined_behaviour ''value_of: phi refers to no node''))
      else
        case lgp_newton_solver A M theta_0 (system_dbl system st) tol max_num_steps line_search of
           None \<Rightarrow> None
         | Some (Inl e) \<Rightarrow> Some (Inl e)
         | Some (Inr theta_dbl) \<Rightarrow>
             (case lgp_newton_solver_vari M (get_phi system) (system_dbl system st) theta_dbl st of
                Inl e \<Rightarrow> Some (Inl e)
              | Inr (vi0, st') \<Rightarrow>
                  (case derived (memalloc st' ! vi0) of
                     None \<Rightarrow> Some (Inl (undefined_behaviour ''vi0 is not a solver node''))
                   | Some n \<Rightarrow>
                       Some (Inr (map (\<lambda>i. \<lparr>vi = theta n ! i\<rparr>) [0..<length theta_dbl], st')))))"

section \<open>\<open>lgamma_stirling_diff\<close> (\<open>stan/math/prim/fun/lgamma_stirling_diff.hpp\<close>)\<close>

text \<open>
  The function tests its argument for NaN and returns infinity, so its \<open>double\<close> has these
  special values beside the finite ones. Finite values are real numbers: rounding and the
  sign of zero are not modelled. Comparisons with NaN are false.
\<close>

datatype double = NaN | NegInf | PosInf | Finite real

fun is_nan :: "double \<Rightarrow> bool" where
  "is_nan NaN = True"
| "is_nan _ = False"

fun is_finite :: "double \<Rightarrow> bool" where
  "is_finite (Finite _) = True"
| "is_finite _ = False"

fun d_less :: "double \<Rightarrow> double \<Rightarrow> bool" where
  "d_less NaN _ = False"
| "d_less _ NaN = False"
| "d_less _ NegInf = False"
| "d_less NegInf _ = True"
| "d_less PosInf _ = False"
| "d_less (Finite _) PosInf = True"
| "d_less (Finite x) (Finite y) = (x < y)"

fun d_eq :: "double \<Rightarrow> double \<Rightarrow> bool" where
  "d_eq NaN _ = False"
| "d_eq _ NaN = False"
| "d_eq x y = (x = y)"

definition d_ge :: "double \<Rightarrow> double \<Rightarrow> bool" where
  "d_ge x y = (d_less y x \<or> d_eq x y)"

fun d_uminus :: "double \<Rightarrow> double" where
  "d_uminus NaN = NaN"
| "d_uminus NegInf = PosInf"
| "d_uminus PosInf = NegInf"
| "d_uminus (Finite x) = Finite (- x)"

fun d_plus :: "double \<Rightarrow> double \<Rightarrow> double" where
  "d_plus NaN _ = NaN"
| "d_plus _ NaN = NaN"
| "d_plus PosInf NegInf = NaN"
| "d_plus NegInf PosInf = NaN"
| "d_plus PosInf _ = PosInf"
| "d_plus _ PosInf = PosInf"
| "d_plus NegInf _ = NegInf"
| "d_plus _ NegInf = NegInf"
| "d_plus (Finite x) (Finite y) = Finite (x + y)"

definition d_minus :: "double \<Rightarrow> double \<Rightarrow> double" where
  "d_minus x y = d_plus x (d_uminus y)"

fun d_times :: "double \<Rightarrow> double \<Rightarrow> double" where
  "d_times NaN _ = NaN"
| "d_times _ NaN = NaN"
| "d_times (Finite x) (Finite y) = Finite (x * y)"
| "d_times (Finite x) y = (if x = 0 then NaN else if 0 < x then y else d_uminus y)"
| "d_times x (Finite y) = (if y = 0 then NaN else if 0 < y then x else d_uminus x)"
| "d_times x y = (if x = y then PosInf else NegInf)"

text \<open>
  Modelled from the spec: \<open>inv\<close>, \<open>square\<close>, \<open>check_nonnegative\<close> and \<open>check_positive_finite\<close>
  are not among the sources. \<open>inv x\<close>, here \<open>inv_double x\<close>, is \<open>1 / x\<close> and \<open>square x\<close> is \<open>x * x\<close>. For the two
  checks the spec requires the numerical-function layer to fail with a descriptive domain
  error; \<open>check_nonnegative\<close> accepts exactly the arguments with \<open>y >= 0\<close>, and
  \<open>check_positive_finite\<close>, as its unit test has it, accepts 1 and throws
  \<open>std::domain_error\<close> for -1, 0, both infinities and NaN: it accepts exactly the finite
  arguments with \<open>y > 0\<close>. The message names the function and the argument.
\<close>

fun inv_double :: "double \<Rightarrow> double" where
  "inv_double NaN = NaN"
| "inv_double NegInf = Finite 0"
| "inv_double PosInf = Finite 0"
| "inv_double (Finite x) = (if x = 0 then PosInf else Finite (1 / x))"

definition square :: "double \<Rightarrow> double" where
  "square x = d_times x x"

definition check_nonnegative :: "string \<Rightarrow> string \<Rightarrow> double \<Rightarrow> error + unit" where
  "check_nonnegative function name y =
     (if d_ge y (Finite 0) then Inr ()
      else Inl (domain_error (function @ '': '' @ name @ '' must be >= 0'')))"

definition check_positive_finite :: "string \<Rightarrow> string \<Rightarrow> double \<Rightarrow> error + unit" where
  "check_positive_finite function name y =
     (if \<not> d_less (Finite 0) y
      then Inl (domain_error (function @ '': '' @ name @ '' must be > 0''))
      else if \<not> is_finite y
      then Inl (domain_error (function @ '': '' @ name @ '' must be finite''))
      else Inr ())"

definition lgamma_stirling_diff_useful :: double where
  "lgamma_stirling_diff_useful = Finite 10"

definition stirling_series :: "double list" where
  "stirling_series =
     [Finite 0.0833333333333333333333333, Finite (- 0.00277777777777777777777778),
      Finite 0.000793650793650793650793651, Finite (- 0.000595238095238095238095238)]"

text \<open>
  \<open>lgamma_stirling_diff\<close> for \<open>T = double\<close>. The functions \<open>lgamma\<close> and \<open>lgamma_stirling\<close>,
  which are not among the sources, are parameters.
\<close>

definition lgamma_stirling_diff ::
  "(double \<Rightarrow> double) \<Rightarrow> (double \<Rightarrow> double) \<Rightarrow> double \<Rightarrow> error + double" where
  "lgamma_stirling_diff lgamma lgamma_stirling x =
     (if is_nan x then Inr NaN
      else
        (case check_nonnegative ''lgamma_stirling_diff'' ''argument'' x of
           Inl e \<Rightarrow> Inl e
         | Inr _ \<Rightarrow>
             if d_eq x (Finite 0) then Inr PosInf
             else if d_less x lgamma_stirling_diff_useful
             then Inr (d_minus (lgamma x) (lgamma_stirling x))
             else
               let inv_x = inv_double x;
                   inv_x_squared = square inv_x;
                   inv_x_cubed = d_times inv_x inv_x_squared;
                   inv_x_fifth = d_times inv_x_cubed inv_x_squared
               in Inr (d_plus (d_plus (d_times (stirling_series ! 0) inv_x)
                                      (d_times (stirling_series ! 1) inv_x_cubed))
                              (d_times (stirling_series ! 2) inv_x_fifth))))"

section \<open>The reverse-mode core\<close>

text \<open>
  Modelled from the spec: the arena allocator, the tape, the nesting manager, the reverse
  sweep and the operations on value handles are not among the sources (\<open>start_nested\<close>,
  \<open>grad\<close> and \<open>recover_memory_nested\<close> are only called, by the stress test of the ODE
  integrator). The definitions of this section follow Sections 3, 4 and 7 of the spec.
\<close>

subsection \<open>Arena\<close>

text \<open>
  Modelled from the spec: the arena allocator (Section 4.1), which is not among the sources.
  The arena owns a list of chunks, given by their capacities, and an allocation cursor: a
  chunk index and an offset in that chunk, which is the watermark. \<open>allocate\<close> takes the
  storage from the current chunk or, if that is exhausted, links a new chunk of at least
  the requested and at least twice the current capacity behind it. \<open>rewind\<close> resets the
  cursor and runs no cleanup; the memory beyond the cursor is free.
\<close>

record arena =
  chunks :: "nat list"
  cur_chunk :: nat
  cur_offset :: nat

type_synonym token = "nat \<times> nat"

definition watermark :: "arena \<Rightarrow> token" where
  "watermark a = (cur_chunk a, cur_offset a)"

definition allocate :: "nat \<Rightarrow> arena \<Rightarrow> token \<times> arena" where
  "allocate bytes a =
     (if cur_chunk a < length (chunks a) \<and> cur_offset a + bytes \<le> chunks a ! cur_chunk a
      then ((cur_chunk a, cur_offset a), a\<lparr>cur_offset := cur_offset a + bytes\<rparr>)
      else
        let used = take (cur_chunk a + 1) (chunks a);
            capacity = max bytes (2 * (if used = [] then 0 else last used))
        in ((length used, 0),
            a\<lparr>chunks := used @ [capacity], cur_chunk := length used, cur_offset := bytes\<rparr>))"

definition rewind :: "token \<Rightarrow> arena \<Rightarrow> arena" where
  "rewind t a = a\<lparr>cur_chunk := fst t, cur_offset := snd t\<rparr>"

subsection \<open>Computation nodes and the tape\<close>

text \<open>
  Modelled from the spec: the computation nodes and the tape (Sections 3, 4.2 and 4.3),
  which are not among the sources. A node has a value, an adjoint and one of the operation
  variants with its operands: a leaf, an addition or a multiplication. (The sources have
  one more kind of node, the solver node of the sections above.) Every node is appended
  to the tape when it is created, so a node is referred to by its tape position.
\<close>

datatype variant =
    Leaf
  | Add nat nat
  | Mul nat nat

record node =
  node_value :: real
  adjoint :: real
  variant :: variant

fun operands :: "variant \<Rightarrow> nat list" where
  "operands Leaf = []"
| "operands (Add a b) = [a, b]"
| "operands (Mul a b) = [a, b]"

text \<open>A checkpoint is an arena watermark and a tape length.\<close>

record engine =
  arena :: arena
  tape :: "node list"
  checkpoints :: "(token \<times> nat) list"

text \<open>Constructing a node: storage from the arena, and the node at the end of the tape.\<close>

definition new_node :: "nat \<Rightarrow> node \<Rightarrow> engine \<Rightarrow> nat \<times> engine" where
  "new_node bytes nd e =
     (length (tape e), e\<lparr>arena := snd (allocate bytes (arena e)), tape := tape e @ [nd]\<rparr>)"

subsection \<open>Value handles\<close>

text \<open>
  Modelled from the spec: the operations on value handles (Sections 4.6 and 6), which are
  not among the sources, for the handles that take part in the tape. \<open>sz\<close> gives the
  storage a node of each variant needs. A new node has adjoint 0. The operations are
  specified for handles to nodes of the tape: the use of a handle whose node has been
  recovered is a violation of the caller's protocol that the engine does not detect.
\<close>

definition make_leaf :: "(variant \<Rightarrow> nat) \<Rightarrow> real \<Rightarrow> engine \<Rightarrow> nat \<times> engine" where
  "make_leaf sz v e = new_node (sz Leaf) \<lparr>node_value = v, adjoint = 0, variant = Leaf\<rparr> e"

definition add_handles :: "(variant \<Rightarrow> nat) \<Rightarrow> nat \<Rightarrow> nat \<Rightarrow> engine \<Rightarrow> nat \<times> engine" where
  "add_handles sz a b e =
     new_node (sz (Add a b))
       \<lparr>node_value = node_value (tape e ! a) + node_value (tape e ! b), adjoint = 0,
        variant = Add a b\<rparr> e"

definition multiply_handles :: "(variant \<Rightarrow> nat) \<Rightarrow> nat \<Rightarrow> nat \<Rightarrow> engine \<Rightarrow> nat \<times> engine" where
  "multiply_handles sz a b e =
     new_node (sz (Mul a b))
       \<lparr>node_value = node_value (tape e ! a) * node_value (tape e ! b), adjoint = 0,
        variant = Mul a b\<rparr> e"

subsection \<open>Nesting manager\<close>

text \<open>
  Modelled from the spec: the nesting manager (Section 4.4), which is not among the
  sources. \<open>start_nested\<close> pushes the checkpoint; \<open>recover_nested\<close> pops it, truncates the
  tape and rewinds the arena, and fails if the checkpoint stack is empty; \<open>recover_all\<close>
  drops every checkpoint and empties tape and arena.
\<close>

definition start_nested :: "engine \<Rightarrow> engine" where
  "start_nested e =
     e\<lparr>checkpoints := (watermark (arena e), length (tape e)) # checkpoints e\<rparr>"

definition recover_nested :: "engine \<Rightarrow> error + engine" where
  "recover_nested e =
     (case checkpoints e of
        [] \<Rightarrow> Inl (logic_error ''recover_nested: the checkpoint stack is empty'')
      | (w, n) # cs \<Rightarrow>
          Inr (e\<lparr>checkpoints := cs, tape := take n (tape e), arena := rewind w (arena e)\<rparr>))"

definition recover_all :: "engine \<Rightarrow> engine" where
  "recover_all e = e\<lparr>checkpoints := [], tape := [], arena := rewind (0, 0) (arena e)\<rparr>"

text \<open>
  A computation is a sequence of calls into the core. A failure is not handled anywhere:
  it ends the computation and is its result.
\<close>

datatype call = Start_nested | Recover_nested | Recover_all | New_node nat node

fun exec :: "call \<Rightarrow> engine \<Rightarrow> error + engine" where
  "exec Start_nested e = Inr (start_nested e)"
| "exec Recover_nested e = recover_nested e"
| "exec Recover_all e = Inr (recover_all e)"
| "exec (New_node bytes nd) e = Inr (snd (new_node bytes nd e))"

fun run :: "call list \<Rightarrow> engine \<Rightarrow> error + engine" where
  "run [] e = Inr e"
| "run (c # cs) e = (case exec c e of Inl err \<Rightarrow> Inl err | Inr e' \<Rightarrow> run cs e')"

text \<open>\<open>startNestedScope(); build N nodes; recoverNestedScope()\<close>, and its repetition.\<close>

definition bracket :: "(nat \<times> node) list \<Rightarrow> call list" where
  "bracket nodes = Start_nested # map (\<lambda>(bytes, nd). New_node bytes nd) nodes @ [Recover_nested]"

subsection \<open>Reverse sweep\<close>

text \<open>
  Modelled from the spec: the reverse sweep engine (Section 4.5) and the propagation
  operations of the variants (Section 4.2), which are not among the sources.
\<close>

definition bump :: "nat \<Rightarrow> real \<Rightarrow> node list \<Rightarrow> node list" where
  "bump p x tp = tp[p := (tp ! p)\<lparr>adjoint := adjoint (tp ! p) + x\<rparr>]"

text \<open>
  \<open>propagate\<close> of the node at position \<open>k\<close> reads the node's adjoint and adds it, times the
  local partial derivative, into the adjoint of each operand.
\<close>

fun propagate_variant :: "variant \<Rightarrow> real \<Rightarrow> node list \<Rightarrow> node list" where
  "propagate_variant Leaf g tp = tp"
| "propagate_variant (Add a b) g tp = bump b (g * 1) (bump a (g * 1) tp)"
| "propagate_variant (Mul a b) g tp =
     bump b (g * node_value (tp ! a)) (bump a (g * node_value (tp ! b)) tp)"

definition propagate :: "nat \<Rightarrow> node list \<Rightarrow> node list" where
  "propagate k tp = propagate_variant (variant (tp ! k)) (adjoint (tp ! k)) tp"

text \<open>
  The walk over the positions below \<open>k\<close> down to \<open>lo\<close>. The second component records the
  positions at which \<open>propagate\<close> was called, in the order of the calls.
\<close>

function sweep :: "nat \<Rightarrow> nat \<Rightarrow> node list \<times> nat list \<Rightarrow> node list \<times> nat list" where
  "sweep lo k (tp, calls) =
     (if lo < k then sweep lo (k - 1) (propagate (k - 1) tp, calls @ [k - 1])
      else (tp, calls))"
  by pat_completeness auto
termination
  by (relation "measure (\<lambda>(lo, k, s). k)") auto

declare sweep.simps [simp del]

text \<open>
  Inside a nested scope the sweep touches only the active segment, the positions from the
  tape length that the innermost open checkpoint recorded.
\<close>

definition sweep_start :: "engine \<Rightarrow> nat" where
  "sweep_start e = (case checkpoints e of [] \<Rightarrow> 0 | (w, n) # cs \<Rightarrow> n)"

definition zero_adjoints :: "nat \<Rightarrow> node list \<Rightarrow> node list" where
  "zero_adjoints lo tp = take lo tp @ map (\<lambda>nd. nd\<lparr>adjoint := 0\<rparr>) (drop lo tp)"

definition seed :: "nat \<Rightarrow> node list \<Rightarrow> node list" where
  "seed rt tp = tp[rt := (tp ! rt)\<lparr>adjoint := 1\<rparr>]"

text \<open>
  \<open>gradient\<close>: zero the adjoints, seed the root, sweep, read the adjoints of the leaves.
  The result also holds the engine after the sweep and the recorded calls.
\<close>

definition gradient :: "nat \<Rightarrow> nat list \<Rightarrow> engine \<Rightarrow> real list \<times> engine \<times> nat list" where
  "gradient rt leaves e =
     (let lo = sweep_start e;
          (tp, calls) = sweep lo (length (tape e)) (seed rt (zero_adjoints lo (tape e)), [])
      in (map (\<lambda>l. adjoint (tp ! l)) leaves, e\<lparr>tape := tp\<rparr>, calls))"

section \<open>Notions used in the statements\<close>

text \<open>A plain node with adjoint 0, as the base constructor makes it.\<close>

definition plain_vari :: "real \<Rightarrow> vari" where
  "plain_vari x = \<lparr>val = x, adj = 0, derived = None\<rparr>"

text \<open>
  The arrays of a solver node are within bounds and point into the arena \<open>h\<close>, and the
  operand is none of the output nodes.
\<close>

definition wf_node :: "lgp_newton_solver_fields \<Rightarrow> vari list \<Rightarrow> bool" where
  "wf_node n h =
     (phi n \<noteq> [] \<and> phi n ! 0 < length h \<and> length (theta n) = theta_size n
      \<and> theta_size n \<le> length (J n) \<and> (\<forall>a \<in> set (theta n). a < length h)
      \<and> phi n ! 0 \<notin> set (theta n))"

text \<open>The arena \<open>h\<close> with \<open>x\<close> added to the adjoint at address \<open>p\<close>.\<close>

definition add_adj :: "addr \<Rightarrow> real \<Rightarrow> vari list \<Rightarrow> vari list" where
  "add_adj p x h = h[p := (h ! p)\<lparr>adj := adj (h ! p) + x\<rparr>]"

text \<open>The iterates of the Newton solver: \<open>theta_dbl\<close> after \<open>k\<close> updates.\<close>

primrec newton_iterate ::
  "'d arithmetic \<Rightarrow> 'd member_functions \<Rightarrow> 'd lgp_conditional_system \<Rightarrow> bool \<Rightarrow> 'd list \<Rightarrow>
     nat \<Rightarrow> 'd list option" where
  "newton_iterate A M system line_search theta_0 0 = Some theta_0"
| "newton_iterate A M system line_search theta_0 (Suc k) =
     (case newton_iterate A M system line_search theta_0 k of
        None \<Rightarrow> None
      | Some t \<Rightarrow> newton_update A M system line_search t)"

text \<open>The solver's test of convergence, \<open>gradient.norm() <= tol\<close>, at \<open>t\<close>.\<close>

definition converged ::
  "'d arithmetic \<Rightarrow> 'd member_functions \<Rightarrow> 'd lgp_conditional_system \<Rightarrow> 'd \<Rightarrow> 'd list \<Rightarrow> bool" where
  "converged A M system tol t = dbl_less_eq A (vec_norm A (cond_gradient M system t)) tol"

text \<open>The arena \<open>h'\<close> differs from \<open>h\<close> in adjoints at most.\<close>

definition same_nodes :: "vari list \<Rightarrow> vari list \<Rightarrow> bool" where
  "same_nodes h h' =
     (length h' = length h \<and> map val h' = map val h \<and> map derived h' = map derived h)"

text \<open>Every node of a tape refers to operands at smaller positions only.\<close>

definition tape_ok :: "node list \<Rightarrow> bool" where
  "tape_ok tp = (\<forall>k < length tp. \<forall>p \<in> set (operands (variant (tp ! k))). p < k)"

section \<open>Examples\<close>

text \<open>
  The arithmetic of the examples: the exact operations on real numbers. It is not the
  arithmetic of \<open>double\<close>: it does not round, and a division by zero gives 0 where
  \<open>double\<close> has an infinity or NaN. The examples have no division by zero, and their
  numbers are such that no operation of \<open>double\<close> on them would round, the tolerance
  \<open>1 / 1000\<close> apart, which is only compared with.
\<close>

definition exact :: "real arithmetic" where
  "exact =
     \<lparr>elt_divide = map2 (/),
      vec_uminus = map uminus,
      vec_plus = map2 (+),
      scal = (\<lambda>c. map ((*) c)),
      dot = (\<lambda>v w. sum_list (map2 (*) v w)),
      vec_norm = (\<lambda>v. sqrt (sum_list (map (\<lambda>x. x * x) v))),
      dbl_plus = (+),
      dbl_times = (*),
      dbl_greater = (\<lambda>x y. y < x),
      dbl_less_eq = (\<le>),
      dbl_one = 1,
      dbl_half = 1 / 2\<rparr>"

text \<open>
  Member functions for a system with log density \<open>- (theta . theta) / 2\<close>, whose Newton
  update leads to the root 0 in one step, and with a constant solver gradient.
\<close>

definition example_functions :: lgp_member_functions where
  "example_functions =
     \<lparr>log_density = (\<lambda>system t. - sum_list (map (\<lambda>x. x * x) t) / 2),
      cond_gradient = (\<lambda>system t. map uminus t),
      cond_hessian = (\<lambda>system t. map (\<lambda>x. - 1) t),
      solver_gradient = (\<lambda>system t. [2, - 1])\<rparr>"

definition example_system :: "real lgp_conditional_system" where
  "example_system = \<lparr>get_phi = 3, get_n_samples = [1, 1], get_sums = [1, 1]\<rparr>"

text \<open>
  Member functions with a constant log density and a positive Hessian: the Newton
  direction has a negative product with the gradient, and the line search never ends
  (lemma \<open>line_search_never_ends\<close>). The condition of its loop, \<open>0 > 0 + 0.5 * m\<close> with
  the negative \<open>m\<close>, does not depend on the candidate.
\<close>

definition uphill_functions :: lgp_member_functions where
  "uphill_functions =
     \<lparr>log_density = (\<lambda>system t. 0),
      cond_gradient = (\<lambda>system t. map (\<lambda>x. 1) t),
      cond_hessian = (\<lambda>system t. map (\<lambda>x. 1) t),
      solver_gradient = (\<lambda>system t. t)\<rparr>"


text \<open>
  Member functions whose gradient \<open>(1 - x) / 2048 + x * x\<close> is small at 0 and is 1 at the
  Newton update of 0, which is 1.
\<close>

definition stale_functions :: lgp_member_functions where
  "stale_functions =
     \<lparr>log_density = (\<lambda>system t. sum_list (map (\<lambda>x. x / 2048 - x * x / 4096 + x * x * x / 3) t)),
      cond_gradient = (\<lambda>system t. map (\<lambda>x. (1 - x) / 2048 + x * x) t),
      cond_hessian = (\<lambda>system t. map (\<lambda>x. - (1 / 2048) + 2 * x) t),
      solver_gradient = (\<lambda>system t. t)\<rparr>"

text \<open>
  Member functions that read the system: the log density is the sum of
  \<open>s * x - n * phi * x * x / 2\<close> over the coefficients \<open>x\<close> of \<open>theta\<close>, with \<open>s\<close> and \<open>n\<close>
  the sum and the number of samples at that index and \<open>phi\<close> the global parameter. Its
  root is \<open>s / (n * phi)\<close>, with derivative \<open>- x / phi\<close> in \<open>phi\<close>.
\<close>

definition linear_functions :: lgp_member_functions where
  "linear_functions =
     \<lparr>log_density = (\<lambda>system t. sum_list (map (\<lambda>(s, n, x). s * x - n * get_phi system * x * x / 2)
                        (zip (get_sums system) (zip (get_n_samples system) t)))),
      cond_gradient = (\<lambda>system t. map (\<lambda>(s, n, x). s - n * get_phi system * x)
                        (zip (get_sums system) (zip (get_n_samples system) t))),
      cond_hessian = (\<lambda>system t. map (\<lambda>n. - (n * get_phi system)) (get_n_samples system)),
      solver_gradient = (\<lambda>system t. map (\<lambda>x. - (x / get_phi system)) t)\<rparr>"

text \<open>A system with the leaf at address 1 as its global parameter.\<close>

definition linear_system_var :: "var lgp_conditional_system" where
  "linear_system_var = \<lparr>get_phi = \<lparr>vi = 1\<rparr>, get_n_samples = [1, 2], get_sums = [8, 16]\<rparr>"

text \<open>Two leaves \<open>a\<close> and \<open>b\<close>, at the addresses 0 and 1.\<close>

definition two_leaves :: ChainableStack where
  "two_leaves =
     \<lparr>memalloc = [plain_vari 3, plain_vari 4], var_stack = [0, 1], var_nochain_stack = []\<rparr>"

text \<open>
  The state after \<open>new lgp_newton_solver_vari(a, system, theta_dbl)\<close> for the solution
  \<open>theta_dbl = [7, 8]\<close> in the state \<open>two_leaves\<close> (lemma \<open>two_leaves_node_constructed\<close>).
\<close>

definition two_leaves_node :: ChainableStack where
  "two_leaves_node =
     \<lparr>memalloc = [plain_vari 3, plain_vari 4,
                  \<lparr>val = 7, adj = 0,
                   derived = Some \<lparr>phi = [0], theta_size = 2, theta = [3, 4], J = [2, - 1]\<rparr>\<rparr>,
                  plain_vari 7, plain_vari 8],
      var_stack = [0, 1, 2], var_nochain_stack = [3, 4]\<rparr>"

text \<open>The engine before any call.\<close>

definition empty_engine :: engine where
  "empty_engine = \<lparr>arena = \<lparr>chunks = [], cur_chunk = 0, cur_offset = 0\<rparr>, tape = [], checkpoints = []\<rparr>"

text \<open>
  An engine with the tape of \<open>z = x * y + x\<close> for the leaves \<open>x = 3\<close> and \<open>y = 4\<close> (lemma
  \<open>xy_plus_x_built\<close>); the sweep does not depend on the arena.
\<close>

definition xy_plus_x :: engine where
  "xy_plus_x =
     \<lparr>arena = \<lparr>chunks = [], cur_chunk = 0, cur_offset = 0\<rparr>,
      tape = [\<lparr>node_value = 3, adjoint = 0, variant = Leaf\<rparr>,
              \<lparr>node_value = 4, adjoint = 0, variant = Leaf\<rparr>,
              \<lparr>node_value = 12, adjoint = 0, variant = Mul 0 1\<rparr>,
              \<lparr>node_value = 15, adjoint = 0, variant = Add 2 0\<rparr>],
      checkpoints = []\<rparr>"

text \<open>
  The same tape in a nested scope that was opened on the empty tape, as the stress test of
  the ODE integrator opens it (lemma \<open>xy_plus_x_in_scope_built\<close>).
\<close>

definition xy_plus_x_in_scope :: engine where
  "xy_plus_x_in_scope = xy_plus_x\<lparr>checkpoints := [((0, 0), 0)]\<rparr>"

section \<open>Properties of matrix addition\<close>

lemma index_in_matrix:
  assumes "i < r" and "j < (c::nat)"
  shows "j * r + i < r * c"
proof -
  have "j * r + i < j * r + r" using assms(1) by simp
  also have "\<dots> = (Suc j) * r" by simp
  also have "\<dots> \<le> c * r" using assms(2) by (intro mult_le_mono1) simp
  finally show ?thesis by (simp add: mult.commute)
qed

text \<open>
  Claim C10. For matrices \<open>m1\<close> and \<open>m2\<close>, \<open>add m1 m2\<close> throws \<open>std::invalid_argument\<close>
  when their dimensions differ, and otherwise returns the matrix of the same dimensions
  whose coefficient at every position is the sum of the two coefficients there.
\<close>

theorem add_throws_or_sums:
  assumes "wf_matrix m1" and "wf_matrix m2"
  shows "if rows m1 = rows m2 \<and> cols m1 = cols m2
         then \<exists>r. add m1 m2 = Inr r \<and> rows r = rows m1 \<and> cols r = cols m1 \<and> wf_matrix r \<and>
                (\<forall>i<rows m1. \<forall>j<cols m1. coeff r i j = coeff m1 i j + coeff m2 i j)
         else \<exists>msg. add m1 m2 = Inl (invalid_argument msg)"
proof (cases "rows m1 = rows m2 \<and> cols m1 = cols m2")
  case False
  then show ?thesis by (auto simp: add_def check_matching_dims_def)
next
  case True
  let ?r = "matrix_plus m1 m2"
  have len: "length (coeffs m1) = rows m1 * cols m1" "length (coeffs m2) = rows m1 * cols m1"
    using assms True by (simp_all add: wf_matrix_def)
  have "add m1 m2 = Inr ?r"
    using True by (simp add: add_def check_matching_dims_def)
  moreover have "wf_matrix ?r"
    using len by (simp add: wf_matrix_def matrix_plus_def)
  moreover have "coeff ?r i j = coeff m1 i j + coeff m2 i j"
    if "i < rows m1" "j < cols m1" for i j
  proof -
    have "j * rows m1 + i < rows m1 * cols m1" using that by (rule index_in_matrix)
    then show ?thesis using len True by (simp add: coeff_def matrix_plus_def)
  qed
  ultimately show ?thesis using True by (simp add: matrix_plus_def)
qed

theorem add_throws_or_sums_witness:
  "(\<exists>r. add \<lparr>rows = 2, cols = 1, coeffs = [1, 2::int]\<rparr> \<lparr>rows = 2, cols = 1, coeffs = [10, 20]\<rparr>
          = Inr r \<and> rows r = 2 \<and> cols r = 1 \<and> coeff r 0 0 = 11 \<and> coeff r 1 0 = 22)
   \<and> (\<exists>msg. add \<lparr>rows = 2, cols = 1, coeffs = [1, 2::int]\<rparr>
               \<lparr>rows = 1, cols = 2, coeffs = [10, 20]\<rparr> = Inl (invalid_argument msg))"
proof -
  let ?m1 = "\<lparr>rows = 2, cols = 1, coeffs = [1, 2::int]\<rparr>"
  let ?m2 = "\<lparr>rows = 2, cols = 1, coeffs = [10, 20::int]\<rparr>"
  let ?m3 = "\<lparr>rows = 1, cols = 2, coeffs = [10, 20::int]\<rparr>"
  have w1: "wf_matrix ?m1" and w2: "wf_matrix ?m2" and w3: "wf_matrix ?m3"
    by (simp_all add: wf_matrix_def)
  from add_throws_or_sums [OF w1 w2] obtain r where
    r: "add ?m1 ?m2 = Inr r" "rows r = 2" "cols r = 1"
    and c: "\<forall>i<rows ?m1. \<forall>j<cols ?m1. coeff r i j = coeff ?m1 i j + coeff ?m2 i j"
    by auto
  from c have "coeff r 0 0 = coeff ?m1 0 0 + coeff ?m2 0 0"
    and "coeff r 1 0 = coeff ?m1 1 0 + coeff ?m2 1 0"
    by simp_all
  then have "coeff r 0 0 = 11" and "coeff r 1 0 = 22" by (simp_all add: coeff_def)
  with r have "\<exists>r. add ?m1 ?m2 = Inr r \<and> rows r = 2 \<and> cols r = 1
      \<and> coeff r 0 0 = 11 \<and> coeff r 1 0 = 22"
    by blast
  moreover have "\<exists>msg. add ?m1 ?m3 = Inl (invalid_argument msg)"
    using add_throws_or_sums [OF w1 w3] by simp
  ultimately show ?thesis by blast
qed

section \<open>Nested scopes\<close>

lemma new_node_fst [simp]: "fst (new_node bytes nd e) = length (tape e)"
  by (simp add: new_node_def)

lemma new_node_tape [simp]: "tape (snd (new_node bytes nd e)) = tape e @ [nd]"
  by (simp add: new_node_def)

lemma new_node_checkpoints [simp]: "checkpoints (snd (new_node bytes nd e)) = checkpoints e"
  by (simp add: new_node_def)

lemma run_append:
  "run (cs1 @ cs2) e = (case run cs1 e of Inl err \<Rightarrow> Inl err | Inr e' \<Rightarrow> run cs2 e')"
  by (induction cs1 arbitrary: e) (auto split: sum.splits)

lemma run_new_nodes:
  "\<exists>e'. run (map (\<lambda>(bytes, nd). New_node bytes nd) nodes) e = Inr e'
        \<and> tape e' = tape e @ map snd nodes \<and> checkpoints e' = checkpoints e"
proof (induction nodes arbitrary: e)
  case Nil
  show ?case by simp
next
  case (Cons x nodes)
  obtain bytes nd where x: "x = (bytes, nd)" by (cases x)
  from Cons.IH[of "snd (new_node bytes nd e)"] show ?case by (auto simp: x)
qed

lemma run_bracket:
  "\<exists>e'. run (bracket nodes) e = Inr e' \<and> tape e' = tape e \<and> checkpoints e' = checkpoints e
        \<and> watermark (arena e') = watermark (arena e)"
proof -
  obtain e1 where e1: "run (map (\<lambda>(bytes, nd). New_node bytes nd) nodes) (start_nested e) = Inr e1"
    and t1: "tape e1 = tape (start_nested e) @ map snd nodes"
    and c1: "checkpoints e1 = checkpoints (start_nested e)"
    using run_new_nodes[of nodes "start_nested e"] by blast
  have "run (bracket nodes) e = recover_nested e1"
    by (simp add: bracket_def run_append e1 split: sum.splits)
  moreover have "recover_nested e1 =
      Inr (e1\<lparr>checkpoints := checkpoints e, tape := tape e,
               arena := rewind (watermark (arena e)) (arena e1)\<rparr>)"
    by (simp add: recover_nested_def c1 t1 start_nested_def)
  ultimately show ?thesis by (simp add: watermark_def rewind_def)
qed

lemma run_brackets:
  "\<exists>e'. run (concat (map bracket nss)) e = Inr e' \<and> tape e' = tape e
        \<and> checkpoints e' = checkpoints e \<and> watermark (arena e') = watermark (arena e)"
proof (induction nss arbitrary: e)
  case Nil
  show ?case by simp
next
  case (Cons nodes nss)
  obtain e1 where e1: "run (bracket nodes) e = Inr e1" "tape e1 = tape e"
      "checkpoints e1 = checkpoints e" "watermark (arena e1) = watermark (arena e)"
    using run_bracket[of nodes e] by blast
  from Cons.IH[of e1] e1 show ?case by (auto simp: run_append)
qed

text \<open>
  Claim C4. For any number of nodes, \<open>startNestedScope(); build N nodes;
  recoverNestedScope()\<close> succeeds and leaves the size of the tape and the watermark of the
  arena, and with them the tape and the checkpoint stack, as they were before the scope
  began; so does any number of such brackets, one after the other.
\<close>

theorem nested_bracket_restores:
  "(\<exists>e'. run (bracket nodes) e = Inr e' \<and> length (tape e') = length (tape e)
         \<and> watermark (arena e') = watermark (arena e)
         \<and> tape e' = tape e \<and> checkpoints e' = checkpoints e)
   \<and> (\<exists>e'. run (concat (map bracket nss)) e = Inr e' \<and> length (tape e') = length (tape e)
         \<and> watermark (arena e') = watermark (arena e)
         \<and> tape e' = tape e \<and> checkpoints e' = checkpoints e)"
  using run_bracket[of nodes e] run_brackets[of nss e] by auto

text \<open>
  Claim C8. \<open>recoverNestedScope()\<close> with an empty checkpoint stack fails with a diagnostic and
  recovers nothing, and the failure is the result of the whole computation, whatever calls
  were to follow.
\<close>

theorem recover_nested_underflow:
  assumes "run cs1 e = Inr e1" and "checkpoints e1 = []"
  shows "recover_nested e1 = Inl (logic_error ''recover_nested: the checkpoint stack is empty'')
       \<and> run (cs1 @ Recover_nested # cs2) e
           = Inl (logic_error ''recover_nested: the checkpoint stack is empty'')"
  using assms by (simp add: run_append recover_nested_def)

theorem recover_nested_underflow_witness:
  "recover_nested empty_engine
     = Inl (logic_error ''recover_nested: the checkpoint stack is empty'')
   \<and> run ([] @ Recover_nested # [Start_nested]) empty_engine
     = Inl (logic_error ''recover_nested: the checkpoint stack is empty'')"
proof -
  have r: "run [] empty_engine = Inr empty_engine" by simp
  have c: "checkpoints empty_engine = []" by (simp add: empty_engine_def)
  show ?thesis by (rule recover_nested_underflow[OF r c])
qed

section \<open>The reverse sweep\<close>

lemma bump_length [simp]: "length (bump p x tp) = length tp"
  by (simp add: bump_def)

lemma bump_variant [simp]: "variant (bump p x tp ! a) = variant (tp ! a)"
  by (cases "p < length tp") (simp_all add: bump_def nth_list_update list_update_beyond)


lemma propagate_variant_length [simp]: "length (propagate_variant v g tp) = length tp"
  by (cases v) simp_all

lemma propagate_variant_variant [simp]:
  "variant (propagate_variant v g tp ! a) = variant (tp ! a)"
  by (cases v) simp_all


lemma propagate_length [simp]: "length (propagate k tp) = length tp"
  by (simp add: propagate_def)

lemma propagate_variant_same [simp]: "variant (propagate k tp ! a) = variant (tp ! a)"
  by (simp add: propagate_def)









lemma zero_adjoints_length [simp]: "length (zero_adjoints lo tp) = length tp"
  by (simp add: zero_adjoints_def)



lemma seed_length [simp]: "length (seed rt tp) = length tp"
  by (simp add: seed_def)

lemma seed_variant [simp]: "variant (seed rt tp ! k) = variant (tp ! k)"
  by (cases "rt < length tp") (simp_all add: seed_def nth_list_update list_update_beyond)


text \<open>
  The tape invariant holds by construction: a node built from handles to nodes of the tape
  keeps it, and so does truncating the tape.
\<close>

lemma tape_ok_append:
  assumes "tape_ok tp" and "\<forall>p \<in> set (operands (variant nd)). p < length tp"
  shows "tape_ok (tp @ [nd])"
  unfolding tape_ok_def
proof (intro allI impI ballI)
  fix k p
  assume k: "k < length (tp @ [nd])" and p: "p \<in> set (operands (variant ((tp @ [nd]) ! k)))"
  show "p < k"
  proof (cases "k < length tp")
    case True
    with p assms(1) show ?thesis by (simp add: tape_ok_def nth_append)
  next
    case False
    with k have "k = length tp" by simp
    with p assms(2) show ?thesis by simp
  qed
qed

lemma tape_ok_take: "tape_ok tp \<Longrightarrow> tape_ok (take n tp)"
  by (simp add: tape_ok_def)

lemma tape_ok_handles:
  assumes "tape_ok (tape e)"
  shows "tape_ok (tape (snd (make_leaf sz v e)))"
    and "a < length (tape e) \<Longrightarrow> b < length (tape e) \<Longrightarrow> tape_ok (tape (snd (add_handles sz a b e)))"
    and "a < length (tape e) \<Longrightarrow> b < length (tape e) \<Longrightarrow>
           tape_ok (tape (snd (multiply_handles sz a b e)))"
  using assms
  by (simp_all add: make_leaf_def add_handles_def multiply_handles_def new_node_def
      tape_ok_append)

lemma xy_plus_x_built:
  "(let (x, e1) = make_leaf sz 3 empty_engine;
        (y, e2) = make_leaf sz 4 e1;
        (xy, e3) = multiply_handles sz x y e2;
        (z, e4) = add_handles sz xy x e3
    in (tape e4, checkpoints e4, [x, y, xy, z])) = (tape xy_plus_x, checkpoints xy_plus_x, [0, 1, 2, 3])"
  by (simp add: make_leaf_def multiply_handles_def add_handles_def new_node_def empty_engine_def
      xy_plus_x_def Let_def split_beta)


lemma xy_plus_x_in_scope_built:
  "(let e0 = start_nested empty_engine;
        (x, e1) = make_leaf sz 3 e0;
        (y, e2) = make_leaf sz 4 e1;
        (xy, e3) = multiply_handles sz x y e2;
        (z, e4) = add_handles sz xy x e3
    in (tape e4, checkpoints e4, [x, y, xy, z]))
     = (tape xy_plus_x_in_scope, checkpoints xy_plus_x_in_scope, [0, 1, 2, 3])"
  by (simp add: make_leaf_def multiply_handles_def add_handles_def new_node_def empty_engine_def
      start_nested_def watermark_def xy_plus_x_def xy_plus_x_in_scope_def Let_def split_beta)





text \<open>
  Claim C6. For the leaves \<open>x = 3\<close> and \<open>y = 4\<close> and \<open>z = x * y + x\<close>, whatever storage the nodes
  take, \<open>z\<close> has the value 15 and the gradient of \<open>z\<close> is 5 with respect to \<open>x\<close> and 3 with
  respect to \<open>y\<close>.
\<close>

theorem gradient_of_xy_plus_x:
  "(let (x, e1) = make_leaf sz 3 empty_engine;
        (y, e2) = make_leaf sz 4 e1;
        (xy, e3) = multiply_handles sz x y e2;
        (z, e4) = add_handles sz xy x e3
    in (node_value (tape e4 ! z), fst (gradient z [x, y] e4))) = (15, [5, 3])"
  by (simp add: make_leaf_def multiply_handles_def add_handles_def new_node_def empty_engine_def
      gradient_def sweep_start_def zero_adjoints_def seed_def
      sweep.simps propagate_def bump_def Let_def split_beta)


section \<open>Domain checks\<close>

text \<open>
  Claim C7. \<open>lgamma_stirling_diff\<close> throws a domain error for every argument less than 0,
  \<open>check_positive_finite\<close> throws a domain error for every argument that is not greater than
  0 or not finite, and \<open>lgamma_stirling_diff\<close> of NaN returns NaN. An error is the whole
  result: no value is computed and no node is built from it.
\<close>

theorem domain_checks:
  "(d_less x (Finite 0) \<longrightarrow>
      (\<exists>msg. lgamma_stirling_diff lgamma lgamma_stirling x = Inl (domain_error msg)))
   \<and> (\<not> d_less (Finite 0) y \<or> \<not> is_finite y \<longrightarrow>
      (\<exists>msg. check_positive_finite function name y = Inl (domain_error msg)))
   \<and> lgamma_stirling_diff lgamma lgamma_stirling NaN = Inr NaN"
proof (intro conjI impI)
  assume "d_less x (Finite 0)"
  then show "\<exists>msg. lgamma_stirling_diff lgamma lgamma_stirling x = Inl (domain_error msg)"
    by (cases x) (simp_all add: lgamma_stirling_diff_def check_nonnegative_def d_ge_def)
next
  assume "\<not> d_less (Finite 0) y \<or> \<not> is_finite y"
  then show "\<exists>msg. check_positive_finite function name y = Inl (domain_error msg)"
    by (auto simp: check_positive_finite_def)
next
  show "lgamma_stirling_diff lgamma lgamma_stirling NaN = Inr NaN"
    by (simp add: lgamma_stirling_diff_def)
qed

theorem domain_checks_witness:
  "(\<exists>msg. lgamma_stirling_diff (\<lambda>x. x) (\<lambda>x. x) (Finite (- 1)) = Inl (domain_error msg))
   \<and> (\<exists>msg. lgamma_stirling_diff (\<lambda>x. x) (\<lambda>x. x) NegInf = Inl (domain_error msg))
   \<and> (\<exists>msg. check_positive_finite ''check_positive_finite'' ''x'' (Finite (- 1)) = Inl (domain_error msg))
   \<and> (\<exists>msg. check_positive_finite ''check_positive_finite'' ''x'' (Finite 0) = Inl (domain_error msg))
   \<and> (\<exists>msg. check_positive_finite ''check_positive_finite'' ''x'' PosInf = Inl (domain_error msg))
   \<and> (\<exists>msg. check_positive_finite ''check_positive_finite'' ''x'' NegInf = Inl (domain_error msg))
   \<and> (\<exists>msg. check_positive_finite ''check_positive_finite'' ''x'' NaN = Inl (domain_error msg))
   \<and> check_positive_finite ''check_positive_finite'' ''x'' (Finite 1) = Inr ()"
  using domain_checks[of "Finite (- 1)" "\<lambda>x. x" "\<lambda>x. x" "Finite (- 1)" "''check_positive_finite''" "''x''"]
    domain_checks[of NegInf "\<lambda>x. x" "\<lambda>x. x" "Finite 0" "''check_positive_finite''" "''x''"]
    domain_checks[of NegInf "\<lambda>x. x" "\<lambda>x. x" PosInf "''check_positive_finite''" "''x''"]
    domain_checks[of NegInf "\<lambda>x. x" "\<lambda>x. x" NegInf "''check_positive_finite''" "''x''"]
    domain_checks[of NegInf "\<lambda>x. x" "\<lambda>x. x" NaN "''check_positive_finite''" "''x''"]
  by (simp add: check_positive_finite_def)

section \<open>The node of the Newton solver\<close>

lemma new_vari_unstacked:
  "new_vari x False st =
     (length (memalloc st),
      st\<lparr>memalloc := memalloc st @ [plain_vari x],
         var_nochain_stack := var_nochain_stack st @ [length (memalloc st)]\<rparr>)"
  by (simp add: new_vari_def plain_vari_def Let_def)

lemma new_vari_stacked:
  "new_vari x True st =
     (length (memalloc st),
      st\<lparr>memalloc := memalloc st @ [plain_vari x],
         var_stack := var_stack st @ [length (memalloc st)]\<rparr>)"
  by (simp add: new_vari_def plain_vari_def Let_def)

lemma ctor_loop_closed:
  assumes "i \<le> length theta_dbl" and "length arr = length theta_dbl"
  shows "ctor_loop theta_dbl i arr st =
     (take i arr @ [length (memalloc st) ..< length (memalloc st) + (length theta_dbl - i)],
      st\<lparr>memalloc := memalloc st @ map plain_vari (drop i theta_dbl),
         var_nochain_stack := var_nochain_stack st
            @ [length (memalloc st) ..< length (memalloc st) + (length theta_dbl - i)]\<rparr>)"
  using assms
proof (induction theta_dbl i arr st rule: ctor_loop.induct)
  case (1 theta_dbl i arr st)
  show ?case
  proof (cases "i < length theta_dbl")
    case False
    with "1.prems" have "i = length theta_dbl" by simp
    then show ?thesis using "1.prems" by (subst ctor_loop.simps) simp
  next
    case True
    let ?a = "length (memalloc st)"
    let ?st' = "st\<lparr>memalloc := memalloc st @ [plain_vari (theta_dbl ! i)],
         var_nochain_stack := var_nochain_stack st @ [?a]\<rparr>"
    have nv: "new_vari (theta_dbl ! i) False st = (?a, ?st')" by (rule new_vari_unstacked)
    have IH: "ctor_loop theta_dbl (i + 1) (arr[i := ?a]) ?st' =
      (take (i + 1) (arr[i := ?a]) @ [length (memalloc ?st') ..< length (memalloc ?st') + (length theta_dbl - (i + 1))],
      ?st'\<lparr>memalloc := memalloc ?st' @ map plain_vari (drop (i + 1) theta_dbl),
         var_nochain_stack := var_nochain_stack ?st'
            @ [length (memalloc ?st') ..< length (memalloc ?st') + (length theta_dbl - (i + 1))]\<rparr>)"
      using "1.IH"[OF True nv[symmetric] refl] True "1.prems" by simp
    have t: "take (i + 1) (arr[i := ?a]) = take i arr @ [?a]"
      using True "1.prems" by (simp add: take_Suc_conv_app_nth)
    have u: "[?a ..< ?a + (length theta_dbl - i)] = ?a # [?a + 1 ..< ?a + 1 + (length theta_dbl - (i + 1))]"
    proof -
      have lt: "?a < ?a + (length theta_dbl - i)" using True by simp
      have e: "?a + 1 + (length theta_dbl - (i + 1)) = ?a + (length theta_dbl - i)"
        using True by simp
      show ?thesis unfolding e using upt_conv_Cons[OF lt] by (simp only: Suc_eq_plus1)
    qed
    have d: "drop i theta_dbl = theta_dbl ! i # drop (i + 1) theta_dbl"
      using True by (simp add: Cons_nth_drop_Suc)
    have "ctor_loop theta_dbl i arr st = ctor_loop theta_dbl (i + 1) (arr[i := ?a]) ?st'"
      using True nv by (subst ctor_loop.simps) simp
    also note IH
    also have "(take (i + 1) (arr[i := ?a]) @ [length (memalloc ?st') ..< length (memalloc ?st') + (length theta_dbl - (i + 1))],
      ?st'\<lparr>memalloc := memalloc ?st' @ map plain_vari (drop (i + 1) theta_dbl),
         var_nochain_stack := var_nochain_stack ?st'
            @ [length (memalloc ?st') ..< length (memalloc ?st') + (length theta_dbl - (i + 1))]\<rparr>)
      = (take i arr @ [?a ..< ?a + (length theta_dbl - i)],
      st\<lparr>memalloc := memalloc st @ map plain_vari (drop i theta_dbl),
         var_nochain_stack := var_nochain_stack st @ [?a ..< ?a + (length theta_dbl - i)]\<rparr>)"
    proof -
      have len: "length (memalloc ?st') = ?a + 1" by simp
      have e1: "take (i + 1) (arr[i := ?a]) @ [?a + 1 ..< ?a + 1 + (length theta_dbl - (i + 1))]
          = take i arr @ [?a ..< ?a + (length theta_dbl - i)]"
        by (simp only: t u append_assoc append_Cons append_Nil)
      have e2: "memalloc ?st' @ map plain_vari (drop (i + 1) theta_dbl)
          = memalloc st @ map plain_vari (drop i theta_dbl)"
        by (subst d) simp
      have e3: "var_nochain_stack ?st' @ [?a + 1 ..< ?a + 1 + (length theta_dbl - (i + 1))]
          = var_nochain_stack st @ [?a ..< ?a + (length theta_dbl - i)]"
        by (subst u) simp
      have r: "?st'\<lparr>memalloc := X, var_nochain_stack := Y\<rparr>
          = st\<lparr>memalloc := X, var_nochain_stack := Y\<rparr>" for X Y by simp
      show ?thesis by (simp only: len e1 e2 e3 r)
    qed
    finally show ?thesis .
  qed
qed

lemma lgp_newton_solver_vari_closed:
  assumes "theta_dbl \<noteq> []"
  shows "lgp_newton_solver_vari M p system theta_dbl st =
    Inr (length (memalloc st),
      st\<lparr>memalloc := memalloc st
           @ [\<lparr>val = theta_dbl ! 0, adj = 0,
               derived = Some \<lparr>phi = [vi p], theta_size = length theta_dbl,
                 theta = [length (memalloc st) + 1 ..< length (memalloc st) + 1 + length theta_dbl],
                 J = solver_gradient M system theta_dbl\<rparr>\<rparr>]
           @ map plain_vari theta_dbl,
         var_stack := var_stack st @ [length (memalloc st)],
         var_nochain_stack := var_nochain_stack st
           @ [length (memalloc st) + 1 ..< length (memalloc st) + 1 + length theta_dbl]\<rparr>)"
proof -
  define a where "a = length (memalloc st)"
  define outs where "outs = [a + 1 ..< a + 1 + length theta_dbl]"
  define st1 where "st1 = st\<lparr>memalloc := memalloc st @ [plain_vari (theta_dbl ! 0)],
         var_stack := var_stack st @ [a]\<rparr>"
  define arr where "arr = (replicate (length theta_dbl) (undefined::addr))[0 := a]"
  have nv: "new_vari (theta_dbl ! 0) True st = (a, st1)"
    by (simp add: new_vari_stacked a_def st1_def)
  have len1: "length (memalloc st1) = a + 1" by (simp add: st1_def a_def)
  have "ctor_loop theta_dbl 0 arr st1 =
     (take 0 arr @ [length (memalloc st1) ..< length (memalloc st1) + (length theta_dbl - 0)],
      st1\<lparr>memalloc := memalloc st1 @ map plain_vari (drop 0 theta_dbl),
         var_nochain_stack := var_nochain_stack st1
           @ [length (memalloc st1) ..< length (memalloc st1) + (length theta_dbl - 0)]\<rparr>)"
    by (rule ctor_loop_closed) (simp_all add: arr_def)
  then have cl: "ctor_loop theta_dbl 0 arr st1 =
     (outs, st1\<lparr>memalloc := memalloc st1 @ map plain_vari theta_dbl,
         var_nochain_stack := var_nochain_stack st1 @ outs\<rparr>)"
    unfolding len1 outs_def by simp
  have "lgp_newton_solver_vari M p system theta_dbl st =
      Inr (a, (st1\<lparr>memalloc := memalloc st1 @ map plain_vari theta_dbl,
         var_nochain_stack := var_nochain_stack st1 @ outs\<rparr>)
         \<lparr>memalloc := (memalloc st1 @ map plain_vari theta_dbl)
            [a := ((memalloc st1 @ map plain_vari theta_dbl) ! a)\<lparr>derived :=
               Some \<lparr>phi = [vi p], theta_size = length theta_dbl, theta = outs,
                     J = solver_gradient M system theta_dbl\<rparr>\<rparr>]\<rparr>)"
    using assms
    by (simp add: lgp_newton_solver_vari_def nv cl[unfolded arr_def] Let_def)
  also have "\<dots> = Inr (a,
      st\<lparr>memalloc := memalloc st
           @ [\<lparr>val = theta_dbl ! 0, adj = 0,
               derived = Some \<lparr>phi = [vi p], theta_size = length theta_dbl,
                 theta = outs, J = solver_gradient M system theta_dbl\<rparr>\<rparr>]
           @ map plain_vari theta_dbl,
         var_stack := var_stack st @ [a],
         var_nochain_stack := var_nochain_stack st @ outs\<rparr>)"
    by (simp add: st1_def a_def plain_vari_def list_update_append nth_append)
  finally show ?thesis unfolding outs_def a_def .
qed


lemma add_adj_length [simp]: "length (add_adj p x h) = length h"
  by (simp add: add_adj_def)

lemma add_adj_other: "a \<noteq> p \<Longrightarrow> add_adj p x h ! a = h ! a"
  by (simp add: add_adj_def)

lemma add_adj_twice: "p < length h \<Longrightarrow> add_adj p y (add_adj p x h) = add_adj p (x + y) h"
  by (simp add: add_adj_def add.assoc)

lemma wf_node_add_adj: "wf_node n h \<Longrightarrow> wf_node n (add_adj p x h)"
  by (simp add: wf_node_def)

lemma chain_loop_closed:
  assumes "wf_node n h" and "i \<le> theta_size n"
  shows "chain_loop n i h =
     Inr (add_adj (phi n ! 0) (\<Sum>k = i..<theta_size n. adj (h ! (theta n ! k)) * J n ! k) h)"
  using assms
proof (induction n i h rule: chain_loop.induct)
  case (1 n i h)
  let ?p = "phi n ! 0"
  show ?case
  proof (cases "i < theta_size n")
    case False
    with "1.prems" have "i = theta_size n" by simp
    then show ?thesis by (subst chain_loop.simps) (simp add: add_adj_def)
  next
    case True
    let ?x = "adj (h ! (theta n ! i)) * J n ! i"
    let ?h' = "add_adj ?p ?x h"
    have inb: "0 < length (phi n) \<and> i < length (theta n) \<and> i < length (J n)
               \<and> ?p < length h \<and> theta n ! i < length h"
      using "1.prems" True by (auto simp: wf_node_def)
    have wf': "wf_node n ?h'" using "1.prems"(1) by (rule wf_node_add_adj)
    have same: "adj (?h' ! (theta n ! k)) = adj (h ! (theta n ! k))" if "k < theta_size n" for k
    proof -
      have "theta n ! k \<in> set (theta n)" using that "1.prems"(1) by (simp add: wf_node_def)
      then have "theta n ! k \<noteq> ?p" using "1.prems"(1) by (auto simp: wf_node_def)
      then show ?thesis by (simp add: add_adj_other)
    qed
    have "chain_loop n i h = chain_loop n (i + 1) ?h'"
      using True inb by (subst chain_loop.simps) (simp add: add_adj_def)
    also have "\<dots> = Inr (add_adj ?p (\<Sum>k = i + 1..<theta_size n. adj (?h' ! (theta n ! k)) * J n ! k) ?h')"
      using "1.IH"[OF True inb wf'[unfolded add_adj_def]] True by (simp add: add_adj_def)
    also have "(\<Sum>k = i + 1..<theta_size n. adj (?h' ! (theta n ! k)) * J n ! k)
        = (\<Sum>k = i + 1..<theta_size n. adj (h ! (theta n ! k)) * J n ! k)"
      by (rule sum.cong) (simp_all add: same)
    also have "add_adj ?p (\<Sum>k = i + 1..<theta_size n. adj (h ! (theta n ! k)) * J n ! k) ?h'
        = add_adj ?p (?x + (\<Sum>k = i + 1..<theta_size n. adj (h ! (theta n ! k)) * J n ! k)) h"
      using inb by (simp add: add_adj_twice)
    also have "?x + (\<Sum>k = i + 1..<theta_size n. adj (h ! (theta n ! k)) * J n ! k)
        = (\<Sum>k = i..<theta_size n. adj (h ! (theta n ! k)) * J n ! k)"
      using True by (simp add: sum.atLeast_Suc_lessThan)
    finally show ?thesis .
  qed
qed


lemma chain_loop_frame:
  assumes "chain_loop n i h = Inr h'"
  shows "length h' = length h \<and> map val h' = map val h \<and> map derived h' = map derived h
       \<and> (\<forall>a. a \<noteq> phi n ! 0 \<longrightarrow> h' ! a = h ! a)"
  using assms
proof (induction n i h rule: chain_loop.induct)
  case (1 n i h)
  show ?case
  proof (cases "i < theta_size n")
    case False
    then have "chain_loop n i h = Inr h" by (subst chain_loop.simps) simp
    with "1.prems" show ?thesis by simp
  next
    case True
    let ?p = "phi n ! 0"
    let ?h1 = "h[?p := (h ! ?p)\<lparr>adj := adj (h ! ?p) + adj (h ! (theta n ! i)) * J n ! i\<rparr>]"
    have eq: "chain_loop n i h =
        (if 0 < length (phi n) \<and> i < length (theta n) \<and> i < length (J n)
               \<and> ?p < length h \<and> theta n ! i < length h
         then chain_loop n (i + 1) ?h1
         else Inl (undefined_behaviour ''chain: access out of bounds''))"
      by (subst chain_loop.simps) (simp only: True if_True)
    have inb: "0 < length (phi n) \<and> i < length (theta n) \<and> i < length (J n)
               \<and> ?p < length h \<and> theta n ! i < length h"
    proof (rule ccontr)
      assume "\<not> ?thesis"
      with eq have "chain_loop n i h = Inl (undefined_behaviour ''chain: access out of bounds'')"
        by (simp only: if_False simp_thms)
      with "1.prems" show False by simp
    qed
    have step: "chain_loop n i h = chain_loop n (i + 1) ?h1"
      using eq inb by (simp only: if_True simp_thms)
    have IH: "length h' = length ?h1 \<and> map val h' = map val ?h1 \<and> map derived h' = map derived ?h1
       \<and> (\<forall>a. a \<noteq> ?p \<longrightarrow> h' ! a = ?h1 ! a)"
      using "1.IH"[OF True inb] "1.prems" step by simp
    have "map val ?h1 = map val h" "map derived ?h1 = map derived h"
      using inb by (simp_all add: map_update list_update_same_conv)
    with IH show ?thesis by simp
  qed
qed

lemma chain_vari_frame:
  assumes "chain_vari this st = Inr st'"
  shows "same_nodes (memalloc st) (memalloc st') \<and> var_stack st' = var_stack st
       \<and> var_nochain_stack st' = var_nochain_stack st"
proof (cases "derived (memalloc st ! this)")
  case None
  with assms have "st' = st" by (simp add: chain_vari_def split: if_splits)
  then show ?thesis by (simp add: same_nodes_def)
next
  case (Some n)
  with assms obtain h where h: "chain_loop n 0 (memalloc st) = Inr h" and st': "st' = st\<lparr>memalloc := h\<rparr>"
    by (auto simp: chain_vari_def split: if_splits sum.splits)
  from chain_loop_frame[OF h] show ?thesis by (simp add: st' same_nodes_def)
qed


lemma chain_vari_closed:
  assumes "this < length (memalloc st)" and "derived (memalloc st ! this) = Some n"
    and "wf_node n (memalloc st)"
  shows "chain_vari this st =
     Inr (st\<lparr>memalloc := add_adj (phi n ! 0)
            (\<Sum>k<theta_size n. adj (memalloc st ! (theta n ! k)) * J n ! k) (memalloc st)\<rparr>)"
  using assms chain_loop_closed[of n "memalloc st" 0]
  by (simp add: chain_vari_def atLeast0LessThan)

lemma add_adj_at: "p < length h \<Longrightarrow> adj (add_adj p x h ! p) = adj (h ! p) + x"
  by (simp add: add_adj_def)

lemma same_nodes_nth:
  assumes "same_nodes h h'" and "a < length h"
  shows "derived (h' ! a) = derived (h ! a)" and "val (h' ! a) = val (h ! a)"
proof -
  have len: "length h' = length h" and v: "map val h' = map val h"
    and d: "map derived h' = map derived h"
    using assms(1) by (simp_all add: same_nodes_def)
  have "derived (h' ! a) = map derived h' ! a" using assms(2) len by simp
  also have "\<dots> = map derived h ! a" by (simp only: d)
  also have "\<dots> = derived (h ! a)" using assms(2) by simp
  finally show "derived (h' ! a) = derived (h ! a)" .
  have "val (h' ! a) = map val h' ! a" using assms(2) len by simp
  also have "\<dots> = map val h ! a" by (simp only: v)
  also have "\<dots> = val (h ! a)" using assms(2) by simp
  finally show "val (h' ! a) = val (h ! a)" .
qed

lemma wf_node_same_length: "length h' = length h \<Longrightarrow> wf_node n h' = wf_node n h"
  by (simp add: wf_node_def)

lemma two_leaves_node_constructed:
  "lgp_newton_solver_vari example_functions \<lparr>vi = 0\<rparr> example_system [7, 8] two_leaves
     = Inr (2, two_leaves_node)"
proof -
  have u: "[length (memalloc two_leaves) + 1 ..<
            length (memalloc two_leaves) + 1 + length [7, 8::real]] = [3, 4]"
    by (simp add: two_leaves_def upt_conv_Cons)
  have n: "[7, 8::real] \<noteq> []" by simp
  show ?thesis
    unfolding lgp_newton_solver_vari_closed[OF n] u
    by (simp add: two_leaves_def two_leaves_node_def example_functions_def plain_vari_def)
qed

lemma wf_two_leaves_node:
  "wf_node \<lparr>phi = [0], theta_size = 2, theta = [3, 4], J = [2, - 1]\<rparr>
     (memalloc (init_dependent a two_leaves_node))"
proof -
  have "length (memalloc (init_dependent a st)) = length (memalloc st)" for st
    by (simp add: init_dependent_def)
  then have len: "length (memalloc (init_dependent a two_leaves_node)) = 5"
    by (simp add: two_leaves_node_def)
  show ?thesis unfolding wf_node_def len by simp
qed

lemma same_nodes_refl: "same_nodes h h"
  by (simp add: same_nodes_def)

text \<open>
  The scenario of claim C1 on the solver's node: the node is constructed with the leaf \<open>a\<close>
  as its operand, for a solution of size 2 with the sensitivities 2 and -1, its adjoint is
  seeded to 1 and \<open>chain\<close> runs. The state does not change: the adjoints of \<open>a\<close> and of \<open>b\<close>
  are 0 as before.
\<close>

theorem seeded_node_counterexample:
  "lgp_newton_solver_vari example_functions \<lparr>vi = 0\<rparr> example_system [7, 8] two_leaves
     = Inr (2, two_leaves_node)
   \<and> adj (memalloc (init_dependent 2 two_leaves_node) ! 2) = 1
   \<and> chain_vari 2 (init_dependent 2 two_leaves_node) = Inr (init_dependent 2 two_leaves_node)
   \<and> adj (memalloc (init_dependent 2 two_leaves_node) ! 0) = 0
   \<and> adj (memalloc (init_dependent 2 two_leaves_node) ! 1) = 0"
proof -
  let ?n = "\<lparr>phi = [0], theta_size = 2, theta = [3, 4], J = [2, - 1]\<rparr>"
  let ?st = "init_dependent 2 two_leaves_node"
  have m: "memalloc ?st = [plain_vari 3, plain_vari 4, \<lparr>val = 7, adj = 1, derived = Some ?n\<rparr>,
      plain_vari 7, plain_vari 8]"
    by (simp add: init_dependent_def two_leaves_node_def)
  have 1: "2 < length (memalloc ?st)" by (simp add: m)
  have 2: "derived (memalloc ?st ! 2) = Some ?n" by (simp add: m)
  have s: "(\<Sum>k<theta_size ?n. adj (memalloc ?st ! (theta ?n ! k)) * J ?n ! k) = 0"
    unfolding m by (simp add: plain_vari_def lessThan_Suc numeral_2_eq_2)
  have "chain_vari 2 ?st = Inr (?st\<lparr>memalloc := add_adj (phi ?n ! 0) 0 (memalloc ?st)\<rparr>)"
    using chain_vari_closed[OF 1 2 wf_two_leaves_node] by (simp only: s)
  moreover have "add_adj (phi ?n ! 0) 0 (memalloc ?st) = memalloc ?st"
    by (simp add: m add_adj_def plain_vari_def)
  ultimately have c: "chain_vari 2 ?st = Inr ?st" by simp
  have a: "adj (memalloc ?st ! 2) = 1" "adj (memalloc ?st ! 0) = 0" "adj (memalloc ?st ! 1) = 0"
    by (simp_all add: m plain_vari_def)
  show ?thesis using two_leaves_node_constructed c a by blast
qed

text \<open>
  Claim C1, amended. \<open>chain\<close> of a solver node changes no value and no reference, and one
  adjoint only: that of its single operand \<open>phi_[0]\<close>, to which it adds, once for each
  \<open>i < theta_size_\<close>, the adjoint of the output node \<open>theta_[i]\<close> times the stored
  sensitivity \<open>J_[i]\<close>. With the adjoints 1 and 0 on the two output nodes and the
  sensitivities 2 and -1 it adds 2 to the adjoint of the operand, once.
\<close>

theorem chain_adds_output_adjoints:
  assumes "this < length (memalloc st)" and "derived (memalloc st ! this) = Some n"
    and "wf_node n (memalloc st)"
  shows "\<exists>st'. chain_vari this st = Inr st'
     \<and> adj (memalloc st' ! (phi n ! 0))
         = adj (memalloc st ! (phi n ! 0))
           + (\<Sum>k<theta_size n. adj (memalloc st ! (theta n ! k)) * J n ! k)
     \<and> (\<forall>a. a \<noteq> phi n ! 0 \<longrightarrow> memalloc st' ! a = memalloc st ! a)
     \<and> same_nodes (memalloc st) (memalloc st')
     \<and> var_stack st' = var_stack st \<and> var_nochain_stack st' = var_nochain_stack st"
proof -
  let ?x = "\<Sum>k<theta_size n. adj (memalloc st ! (theta n ! k)) * J n ! k"
  let ?st' = "st\<lparr>memalloc := add_adj (phi n ! 0) ?x (memalloc st)\<rparr>"
  have c: "chain_vari this st = Inr ?st'" using assms by (rule chain_vari_closed)
  have p: "phi n ! 0 < length (memalloc st)" using assms(3) by (simp add: wf_node_def)
  have "adj (memalloc ?st' ! (phi n ! 0)) = adj (memalloc st ! (phi n ! 0)) + ?x"
    using p by (simp add: add_adj_at)
  moreover have "\<forall>a. a \<noteq> phi n ! 0 \<longrightarrow> memalloc ?st' ! a = memalloc st ! a"
    by (simp add: add_adj_other)
  moreover have "same_nodes (memalloc st) (memalloc ?st')
      \<and> var_stack ?st' = var_stack st \<and> var_nochain_stack ?st' = var_nochain_stack st"
    using chain_vari_frame[OF c] .
  ultimately show ?thesis using c by blast
qed

theorem chain_adds_output_adjoints_witness:
  "\<exists>st'. chain_vari 2 (init_dependent 3 two_leaves_node) = Inr st'
      \<and> adj (memalloc st' ! 0) = 2 \<and> adj (memalloc st' ! 1) = 0"
proof -
  let ?st = "init_dependent 3 two_leaves_node"
  let ?n = "\<lparr>phi = [0], theta_size = 2, theta = [3, 4], J = [2, - 1]\<rparr>"
  have 1: "2 < length (memalloc ?st)"
    by (simp add: init_dependent_def two_leaves_node_def)
  have 2: "derived (memalloc ?st ! 2) = Some ?n"
    by (simp add: init_dependent_def two_leaves_node_def)
  have 3: "wf_node ?n (memalloc ?st)" by (rule wf_two_leaves_node)
  have m: "memalloc ?st = [plain_vari 3, plain_vari 4, \<lparr>val = 7, adj = 0, derived = Some ?n\<rparr>,
      \<lparr>val = 7, adj = 1, derived = None\<rparr>, plain_vari 8]"
    by (simp add: init_dependent_def two_leaves_node_def plain_vari_def)
  have s: "(\<Sum>k<theta_size ?n. adj (memalloc ?st ! (theta ?n ! k)) * J ?n ! k) = 2"
    unfolding m by (simp add: plain_vari_def lessThan_Suc numeral_2_eq_2)
  have a: "adj (memalloc ?st ! 0) = 0" "adj (memalloc ?st ! 1) = 0"
    by (simp_all add: init_dependent_def two_leaves_node_def plain_vari_def)
  from chain_adds_output_adjoints[OF 1 2 3] obtain st' where
    c: "chain_vari 2 ?st = Inr st'"
    and p: "adj (memalloc st' ! (phi ?n ! 0)) = adj (memalloc ?st ! (phi ?n ! 0))
       + (\<Sum>k<theta_size ?n. adj (memalloc ?st ! (theta ?n ! k)) * J ?n ! k)"
    and o: "\<forall>a. a \<noteq> phi ?n ! 0 \<longrightarrow> memalloc st' ! a = memalloc ?st ! a"
    by blast
  have "adj (memalloc st' ! 0) = 2" using p unfolding s by (simp add: a)
  moreover have "memalloc st' ! 1 = memalloc ?st ! 1" using o[rule_format, of 1] by simp
  ultimately have "chain_vari 2 ?st = Inr st' \<and> adj (memalloc st' ! 0) = 2 \<and> adj (memalloc st' ! 1) = 0"
    using c a by simp
  then show ?thesis ..
qed

text \<open>
  On the constructed node at address 2, \<open>chain\<close> gives another result when the adjoint
  at address 3 is changed: it reads the adjoint of a node that was created after it.
\<close>

theorem chain_reads_later_node_counterexample:
  "lgp_newton_solver_vari example_functions \<lparr>vi = 0\<rparr> example_system [7, 8] two_leaves
     = Inr (2, two_leaves_node)
   \<and> derived (memalloc two_leaves_node ! 2)
       = Some \<lparr>phi = [0], theta_size = 2, theta = [3, 4], J = [2, - 1]\<rparr>
   \<and> chain_vari 2 (init_dependent 3 two_leaves_node)
       = Inr ((init_dependent 3 two_leaves_node)
               \<lparr>memalloc := add_adj 0 2 (memalloc (init_dependent 3 two_leaves_node))\<rparr>)
   \<and> adj (memalloc (init_dependent 3 two_leaves_node) ! 0) = 0
   \<and> adj (add_adj 0 2 (memalloc (init_dependent 3 two_leaves_node)) ! 0) = 2
   \<and> chain_vari 2 two_leaves_node = Inr two_leaves_node"
proof -
  let ?n = "\<lparr>phi = [0], theta_size = 2, theta = [3, 4], J = [2, - 1]\<rparr>"
  let ?st = "init_dependent 3 two_leaves_node"
  have m: "memalloc ?st = [plain_vari 3, plain_vari 4, \<lparr>val = 7, adj = 0, derived = Some ?n\<rparr>,
      \<lparr>val = 7, adj = 1, derived = None\<rparr>, plain_vari 8]"
    by (simp add: init_dependent_def two_leaves_node_def plain_vari_def)
  have m0: "memalloc two_leaves_node = [plain_vari 3, plain_vari 4,
      \<lparr>val = 7, adj = 0, derived = Some ?n\<rparr>, plain_vari 7, plain_vari 8]"
    by (simp add: two_leaves_node_def)
  have d: "derived (memalloc two_leaves_node ! 2) = Some ?n" by (simp add: m0)
  have 1: "2 < length (memalloc ?st)" by (simp add: m)
  have 2: "derived (memalloc ?st ! 2) = Some ?n" by (simp add: m)
  have s: "(\<Sum>k<theta_size ?n. adj (memalloc ?st ! (theta ?n ! k)) * J ?n ! k) = 2"
    unfolding m by (simp add: plain_vari_def lessThan_Suc numeral_2_eq_2)
  have c: "chain_vari 2 ?st = Inr (?st\<lparr>memalloc := add_adj 0 2 (memalloc ?st)\<rparr>)"
    using chain_vari_closed[OF 1 2 wf_two_leaves_node] unfolding s by simp
  have a: "adj (memalloc ?st ! 0) = 0" "adj (add_adj 0 2 (memalloc ?st) ! 0) = 2"
    by (simp_all add: m plain_vari_def add_adj_def)
  have 10: "2 < length (memalloc two_leaves_node)" by (simp add: m0)
  have w0: "wf_node ?n (memalloc two_leaves_node)" by (simp add: wf_node_def m0)
  have s0: "(\<Sum>k<theta_size ?n. adj (memalloc two_leaves_node ! (theta ?n ! k)) * J ?n ! k) = 0"
    unfolding m0 by (simp add: plain_vari_def lessThan_Suc numeral_2_eq_2)
  have "add_adj (phi ?n ! 0) 0 (memalloc two_leaves_node) = memalloc two_leaves_node"
    by (simp add: m0 add_adj_def plain_vari_def)
  then have c0: "chain_vari 2 two_leaves_node = Inr two_leaves_node"
    using chain_vari_closed[OF 10 d w0] unfolding s0 by simp
  show ?thesis using two_leaves_node_constructed d c a c0 by blast
qed

text \<open>
  Claim C2, amended. The node whose adjoint \<open>chain\<close> updates, the operand \<open>phi_[0]\<close>, was
  created strictly before the solver node. The other adjoints that \<open>chain\<close> reads are
  those of the output nodes \<open>theta_[i]\<close>, none of which was created before the solver node.
  In every state that differs from the state after the construction in adjoints at most,
  \<open>chain\<close> of the node changes no reference and no value, and no adjoint but that of
  \<open>phi_[0]\<close>.
\<close>

theorem constructed_node_references:
  assumes "theta_dbl \<noteq> []" and "vi p < length (memalloc st)"
  shows "\<exists>this st' n. lgp_newton_solver_vari M p system theta_dbl st = Inr (this, st')
     \<and> this = length (memalloc st) \<and> derived (memalloc st' ! this) = Some n
     \<and> phi n = [vi p] \<and> vi p < this \<and> (\<forall>k<theta_size n. this \<le> theta n ! k)
     \<and> (length theta_dbl \<le> length (solver_gradient M system theta_dbl) \<longrightarrow>
          (\<forall>st2. same_nodes (memalloc st') (memalloc st2) \<longrightarrow>
             (\<exists>st3. chain_vari this st2 = Inr st3 \<and> same_nodes (memalloc st2) (memalloc st3)
                  \<and> (\<forall>a. a \<noteq> vi p \<longrightarrow> memalloc st3 ! a = memalloc st2 ! a))))"
proof -
  define this where "this = length (memalloc st)"
  define outs where "outs = [this + 1 ..< this + 1 + length theta_dbl]"
  define n where "n = \<lparr>phi = [vi p], theta_size = length theta_dbl, theta = outs,
                         J = solver_gradient M system theta_dbl\<rparr>"
  define st' where "st' = st\<lparr>memalloc := memalloc st
           @ [\<lparr>val = theta_dbl ! 0, adj = 0, derived = Some n\<rparr>] @ map plain_vari theta_dbl,
         var_stack := var_stack st @ [this],
         var_nochain_stack := var_nochain_stack st @ outs\<rparr>"
  have ctor: "lgp_newton_solver_vari M p system theta_dbl st = Inr (this, st')"
    unfolding lgp_newton_solver_vari_closed[OF assms(1)] st'_def n_def outs_def this_def ..
  have len': "length (memalloc st') = this + 1 + length theta_dbl"
    by (simp add: st'_def this_def)
  have d: "derived (memalloc st' ! this) = Some n"
    by (simp add: st'_def this_def nth_append)
  have outs_nth: "outs ! k = this + 1 + k" if "k < length theta_dbl" for k
    unfolding outs_def by (rule nth_upt) (use that in simp)
  have ge: "\<forall>k<theta_size n. this \<le> theta n ! k"
    by (simp add: n_def outs_nth)
  have chain_part: "\<exists>st3. chain_vari this st2 = Inr st3 \<and> same_nodes (memalloc st2) (memalloc st3)
         \<and> (\<forall>a. a \<noteq> vi p \<longrightarrow> memalloc st3 ! a = memalloc st2 ! a)"
    if jl: "length theta_dbl \<le> length (solver_gradient M system theta_dbl)"
      and sn: "same_nodes (memalloc st') (memalloc st2)" for st2
  proof -
    have len2: "length (memalloc st2) = this + 1 + length theta_dbl"
      using sn len' by (simp add: same_nodes_def)
    have 1: "this < length (memalloc st2)" using len2 by simp
    have 2: "derived (memalloc st2 ! this) = Some n"
      using same_nodes_nth(1)[OF sn, of this] d len' by simp
    have so: "set outs = {this + 1 ..< this + 1 + length theta_dbl}"
      and lo: "length outs = length theta_dbl"
      unfolding outs_def by (simp_all only: set_upt length_upt add_diff_cancel_left')
    have pl: "vi p < this" using assms(2) by (simp add: this_def)
    have 3: "wf_node n (memalloc st2)"
      unfolding wf_node_def len2 using pl jl by (simp add: n_def so lo)
    let ?st3 = "st2\<lparr>memalloc := add_adj (phi n ! 0)
            (\<Sum>k<theta_size n. adj (memalloc st2 ! (theta n ! k)) * J n ! k) (memalloc st2)\<rparr>"
    have c: "chain_vari this st2 = Inr ?st3" using 1 2 3 by (rule chain_vari_closed)
    have "same_nodes (memalloc st2) (memalloc ?st3)" using chain_vari_frame[OF c] by simp
    moreover have "\<forall>a. a \<noteq> vi p \<longrightarrow> memalloc ?st3 ! a = memalloc st2 ! a"
      by (simp add: n_def add_adj_other)
    ultimately show ?thesis using c by blast
  qed
  have "vi p < this" using assms(2) by (simp add: this_def)
  moreover have "phi n = [vi p]" by (simp add: n_def)
  ultimately show ?thesis
    using ctor d ge chain_part unfolding this_def[symmetric] by blast
qed

theorem constructed_node_references_witness:
  "\<exists>this st' n. lgp_newton_solver_vari example_functions \<lparr>vi = 0\<rparr> example_system [7, 8] two_leaves
         = Inr (this, st')
     \<and> this = 2 \<and> derived (memalloc st' ! this) = Some n \<and> phi n = [0]
     \<and> (\<exists>st3. chain_vari this st' = Inr st3 \<and> same_nodes (memalloc st') (memalloc st3))"
proof -
  have 1: "[7, 8::real] \<noteq> []" by simp
  have 2: "vi \<lparr>vi = 0\<rparr> < length (memalloc two_leaves)" by (simp add: two_leaves_def)
  have 3: "length [7, 8::real] \<le> length (solver_gradient example_functions example_system [7, 8])"
    by (simp add: example_functions_def)
  have 4: "length (memalloc two_leaves) = 2" by (simp add: two_leaves_def)
  from constructed_node_references[OF 1 2, of example_functions example_system]
  obtain this st' n where
    c: "lgp_newton_solver_vari example_functions \<lparr>vi = 0\<rparr> example_system [7, 8] two_leaves
         = Inr (this, st')"
    and t: "this = length (memalloc two_leaves)"
    and d: "derived (memalloc st' ! this) = Some n" "phi n = [vi \<lparr>vi = 0\<rparr>]"
    and ch: "length [7, 8::real] \<le> length (solver_gradient example_functions example_system [7, 8]) \<longrightarrow>
          (\<forall>st2. same_nodes (memalloc st') (memalloc st2) \<longrightarrow>
             (\<exists>st3. chain_vari this st2 = Inr st3 \<and> same_nodes (memalloc st2) (memalloc st3)
                  \<and> (\<forall>a. a \<noteq> vi \<lparr>vi = 0\<rparr> \<longrightarrow> memalloc st3 ! a = memalloc st2 ! a)))"
    by blast
  from ch 3 same_nodes_refl[of "memalloc st'"]
  have "\<exists>st3. chain_vari this st' = Inr st3 \<and> same_nodes (memalloc st') (memalloc st3)"
    by blast
  with c t d 4 show ?thesis by simp
qed

section \<open>The Newton solver\<close>

lemma newton_iterate_shift:
  "newton_iterate A M system ls t (Suc k) =
     (case newton_update A M system ls t of
        None \<Rightarrow> None
      | Some t' \<Rightarrow> newton_iterate A M system ls t' k)"
proof (induction k)
  case 0
  show ?case by (simp split: option.splits)
next
  case (Suc k)
  show ?case
    by (subst newton_iterate.simps(2), subst Suc.IH) (simp split: option.splits)
qed


text \<open>
  A limit above the largest \<open>int\<close> is never reached: if no test of convergence succeeds,
  the counter overflows.
\<close>

lemma newton_for_overflows:
  assumes "0 \<le> i" and "i \<le> INT_MAX" and "INT_MAX < max_num_steps"
    and "\<forall>k \<le> nat (INT_MAX - i). \<exists>t. newton_iterate A M system ls th k = Some t
           \<and> \<not> converged A M system tol t"
    and "newton_iterate A M system ls th (Suc (nat (INT_MAX - i))) \<noteq> None"
  shows "newton_for A M system tol max_num_steps ls i th =
           Some (Inl (undefined_behaviour ''i++ overflows int''))"
  using assms
proof (induction A M system tol max_num_steps ls i th rule: newton_for.induct)
  case (1 A M system tol max_num_steps ls i th)
  from "1.prems" have lt: "i < max_num_steps" by simp
  from "1.prems"(4) have nc: "\<not> converged A M system tol th" by fastforce
  have "newton_iterate A M system ls th (Suc 0) \<noteq> None"
  proof (cases "nat (INT_MAX - i)")
    case 0
    then show ?thesis using "1.prems"(5) by simp
  next
    case (Suc m)
    then have "Suc 0 \<le> nat (INT_MAX - i)" by simp
    with "1.prems"(4) show ?thesis by fastforce
  qed
  then obtain t' where upd: "newton_update A M system ls th = Some t'"
    by (auto split: option.splits)
  have it: "newton_iterate A M system ls th (Suc k) = newton_iterate A M system ls t' k" for k
    by (simp add: newton_iterate_shift upd del: newton_iterate.simps)
  show ?case
  proof (cases "i = INT_MAX")
    case True
    then show ?thesis
      using lt nc upd by (subst newton_for.simps) (simp add: converged_def)
  next
    case False
    with "1.prems"(2) have lt': "i < INT_MAX" by simp
    have suc: "nat (INT_MAX - i) = Suc (nat (INT_MAX - (i + 1)))" using lt' by simp
    have step: "newton_for A M system tol max_num_steps ls i th
              = newton_for A M system tol max_num_steps ls (i + 1) t'"
      using lt nc upd False by (subst newton_for.simps) (simp add: converged_def)
    have P: "\<forall>k \<le> nat (INT_MAX - (i + 1)). \<exists>t. newton_iterate A M system ls t' k = Some t
           \<and> \<not> converged A M system tol t"
    proof (intro allI impI)
      fix k assume "k \<le> nat (INT_MAX - (i + 1))"
      then have "Suc k \<le> nat (INT_MAX - i)" using suc by simp
      with "1.prems"(4) have "\<exists>t. newton_iterate A M system ls th (Suc k) = Some t
           \<and> \<not> converged A M system tol t" by blast
      then show "\<exists>t. newton_iterate A M system ls t' k = Some t \<and> \<not> converged A M system tol t"
        by (simp only: it)
    qed
    have Q: "newton_iterate A M system ls t' (Suc (nat (INT_MAX - (i + 1)))) \<noteq> None"
      using "1.prems"(5) unfolding suc it .
    have ne: "i \<noteq> max_num_steps" using lt by simp
    have "newton_for A M system tol max_num_steps ls (i + 1) t' =
           Some (Inl (undefined_behaviour ''i++ overflows int''))"
    proof (rule "1.IH"[OF _ ne upd _ False])
      show "i \<le> max_num_steps" using lt by simp
      show "\<not> dbl_less_eq A (vec_norm A (cond_gradient M system th)) tol"
        using nc by (simp add: converged_def)
      show "0 \<le> i + 1" using "1.prems"(1) by simp
      show "i + 1 \<le> INT_MAX" using lt' by simp
      show "INT_MAX < max_num_steps" by fact
      show "\<forall>k \<le> nat (INT_MAX - (i + 1)). \<exists>t. newton_iterate A M system ls t' k = Some t
           \<and> \<not> converged A M system tol t" by (rule P)
      show "newton_iterate A M system ls t' (Suc (nat (INT_MAX - (i + 1)))) \<noteq> None" by (rule Q)
    qed
    with step show ?thesis by simp
  qed
qed





text \<open>
  The line search does not return when its condition holds at every candidate, whatever
  the arithmetic.
\<close>

lemma line_search_never_ends:
  assumes "\<forall>t. dbl_greater A (log_density M system t)
                 (dbl_plus A (log_density M system theta_dbl) (dbl_times A c m))"
  shows "line_search_while A M system theta_dbl direction c tau m alpha theta_candidate = None"
proof (rule ccontr)
  assume "line_search_while A M system theta_dbl direction c tau m alpha theta_candidate \<noteq> None"
  then obtain y where
    eq: "line_search_while A M system theta_dbl direction c tau m alpha theta_candidate = Some y"
    by auto
  have "\<not> (\<forall>t. dbl_greater A (log_density M system t)
                 (dbl_plus A (log_density M system theta_dbl) (dbl_times A c m)))"
  proof (rule line_search_while.raw_induct[where
        P = "\<lambda>A M system theta_dbl direction c tau m alpha theta_candidate y.
               \<not> (\<forall>t. dbl_greater A (log_density M system t)
                 (dbl_plus A (log_density M system theta_dbl) (dbl_times A c m)))", OF _ eq])
    fix f A M system theta_dbl direction c tau m alpha theta_candidate y
    assume IH: "\<And>A M system theta_dbl direction c tau m alpha theta_candidate y.
        f A M system theta_dbl direction c tau m alpha theta_candidate = Some y \<Longrightarrow>
        \<not> (\<forall>t. dbl_greater A (log_density M system t)
                 (dbl_plus A (log_density M system theta_dbl) (dbl_times A c m)))"
      and step: "(if dbl_greater A (log_density M system theta_candidate)
                       (dbl_plus A (log_density M system theta_dbl) (dbl_times A c m))
            then f A M system theta_dbl direction c tau m (dbl_times A tau alpha)
                   (vec_plus A theta_dbl (scal A (dbl_times A tau alpha) direction))
            else Some theta_candidate) = Some y"
    show "\<not> (\<forall>t. dbl_greater A (log_density M system t)
                 (dbl_plus A (log_density M system theta_dbl) (dbl_times A c m)))"
    proof
      assume a: "\<forall>t. dbl_greater A (log_density M system t)
                 (dbl_plus A (log_density M system theta_dbl) (dbl_times A c m))"
      with step have "f A M system theta_dbl direction c tau m (dbl_times A tau alpha)
             (vec_plus A theta_dbl (scal A (dbl_times A tau alpha) direction)) = Some y"
        by simp
      from IH[OF this] a show False by simp
    qed
  qed
  with assms show False by simp
qed

subsection \<open>The examples\<close>

lemma norm_exact_1 [simp]: "vec_norm exact [x] = \<bar>x\<bar>"
  by (simp add: exact_def)

lemma norm_exact_2 [simp]: "vec_norm exact [x, 0] = \<bar>x\<bar>" "vec_norm exact [0, x] = \<bar>x\<bar>"
  by (simp_all add: exact_def)



lemma uphill_update: "newton_update exact uphill_functions system True [0] = None"
proof -
  have "line_search_while exact uphill_functions system [0] [- 1] (1 / 2) (1 / 2) (- 1) 1
          (vec_plus exact [0] (scal exact 1 [- 1])) = None"
    by (rule line_search_never_ends) (simp add: uphill_functions_def exact_def)
  then show ?thesis
    by (simp add: newton_update_def uphill_functions_def Let_def) (simp add: exact_def)
qed

lemma uphill_step: "newton_update exact uphill_functions system False [x] = Some [x - 1]"
  by (simp add: newton_update_def uphill_functions_def Let_def exact_def)

lemma uphill_not_converged: "\<not> converged exact uphill_functions system (1 / 1000) [x]"
  by (simp add: converged_def uphill_functions_def) (simp add: exact_def)

lemma uphill_solve:
  "lgp_newton_solver exact uphill_functions [0] system (1 / 1000) 100 True = None"
  unfolding lgp_newton_solver_def
  by (subst newton_for.simps) (simp add: uphill_update)





lemma uphill_iterate:
  "newton_iterate exact uphill_functions system False [0] k = Some [- real k]"
proof (induction k)
  case 0
  show ?case by simp
next
  case (Suc k)
  then show ?case by (simp add: uphill_step)
qed

lemma uphill_overflows:
  "lgp_newton_solver exact uphill_functions [0] example_system (1 / 1000) 2147483648 False
     = Some (Inl (undefined_behaviour ''i++ overflows int''))"
  unfolding lgp_newton_solver_def
proof (rule newton_for_overflows)
  show "(0::int) \<le> 0" by simp
  show "0 \<le> INT_MAX" by (simp add: INT_MAX_def)
  show "INT_MAX < 2147483648" by (simp add: INT_MAX_def)
  show "\<forall>k \<le> nat (INT_MAX - 0). \<exists>t. newton_iterate exact uphill_functions example_system False [0] k = Some t
           \<and> \<not> converged exact uphill_functions example_system (1 / 1000) t"
    using uphill_iterate uphill_not_converged by blast
  show "newton_iterate exact uphill_functions example_system False [0] (Suc (nat (INT_MAX - 0))) \<noteq> None"
    by (simp only: uphill_iterate) simp
qed

text \<open>
  The test of convergence is on the gradient at the iterate before the update. At \<open>[0]\<close>
  the norm of the gradient of \<open>stale_functions\<close> is \<open>1 / 2048\<close>, within the tolerance, so
  the solver returns the update \<open>[1]\<close> of \<open>[0]\<close> in its first round, and at \<open>[1]\<close> the norm
  of the gradient is 1. The comment at the test reads \<open>Check solution is a root
  of the gradient\<close>.
\<close>

lemma stale_test_returns_update:
  "lgp_newton_solver exact stale_functions [0] example_system (1 / 1000) 100 False
     = Some (Inr [1])
   \<and> converged exact stale_functions example_system (1 / 1000) [0]
   \<and> \<not> converged exact stale_functions example_system (1 / 1000) [1]"
proof -
  have u: "newton_update exact stale_functions example_system False [0] = Some [1]"
    by (simp add: newton_update_def stale_functions_def Let_def exact_def)
  have c0: "converged exact stale_functions example_system (1 / 1000) [0]"
    by (simp add: converged_def stale_functions_def) (simp add: exact_def)
  have c1: "\<not> converged exact stale_functions example_system (1 / 1000) [1]"
    by (simp add: converged_def stale_functions_def) (simp add: exact_def)
  have "newton_for exact stale_functions example_system (1 / 1000) 100 False 0 [0]
      = Some (Inr [1])"
    using c0 by (subst newton_for.simps) (simp add: u converged_def)
  then show ?thesis using c0 c1 by (simp add: lgp_newton_solver_def)
qed




section \<open>The solver for a \<open>var\<close> global parameter\<close>

lemma map_nth_handles:
  "map (\<lambda>i. \<lparr>vi = xs ! i\<rparr>) [0..<length xs] = map (\<lambda>a. \<lparr>vi = a\<rparr>) xs"
proof -
  have "map (\<lambda>i. \<lparr>vi = xs ! i\<rparr>) [0..<length xs]
      = map (\<lambda>a. \<lparr>vi = a\<rparr>) (map (\<lambda>i. xs ! i) [0..<length xs])"
    by (simp add: comp_def del: upt_Suc)
  then show ?thesis by (simp only: map_nth)
qed

lemma system_dbl_copy:
  "system_dbl system st =
     \<lparr>get_phi = val (memalloc st ! vi (get_phi system)),
      get_n_samples = get_n_samples system, get_sums = get_sums system\<rparr>"
  by (simp add: system_dbl_def value_of_def)

lemma var_solver_passes_on:
  assumes "vi (get_phi system) < length (memalloc st)"
  shows "lgp_newton_solver A M theta_0 (system_dbl system st) tol max_num_steps ls = Some (Inl e)
      \<Longrightarrow> lgp_newton_solver_var A M theta_0 system tol max_num_steps ls st = Some (Inl e)"
    and "lgp_newton_solver A M theta_0 (system_dbl system st) tol max_num_steps ls = None
      \<Longrightarrow> lgp_newton_solver_var A M theta_0 system tol max_num_steps ls st = None"
  using assms by (simp_all add: lgp_newton_solver_var_def)

lemma var_solver_constructs:
  assumes "vi (get_phi system) < length (memalloc st)"
    and "lgp_newton_solver A M theta_0 (system_dbl system st) tol max_num_steps ls
          = Some (Inr theta_dbl)"
    and "theta_dbl \<noteq> []"
  shows "lgp_newton_solver_var A M theta_0 system tol max_num_steps ls st =
              Some (Inr (map (\<lambda>a. \<lparr>vi = a\<rparr>)
                           [length (memalloc st) + 1 ..< length (memalloc st) + 1 + length theta_dbl],
                 st\<lparr>memalloc := memalloc st
                      @ [\<lparr>val = theta_dbl ! 0, adj = 0,
                          derived = Some \<lparr>phi = [vi (get_phi system)],
                            theta_size = length theta_dbl,
                            theta = [length (memalloc st) + 1 ..<
                                     length (memalloc st) + 1 + length theta_dbl],
                            J = solver_gradient M (system_dbl system st) theta_dbl\<rparr>\<rparr>]
                      @ map plain_vari theta_dbl,
                    var_stack := var_stack st @ [length (memalloc st)],
                    var_nochain_stack := var_nochain_stack st
                      @ [length (memalloc st) + 1 ..<
                         length (memalloc st) + 1 + length theta_dbl]\<rparr>))"
proof -
  define this where "this = length (memalloc st)"
  define outs where "outs = [this + 1 ..< this + 1 + length theta_dbl]"
  define n where "n = \<lparr>phi = [vi (get_phi system)], theta_size = length theta_dbl, theta = outs,
                         J = solver_gradient M (system_dbl system st) theta_dbl\<rparr>"
  define st' where "st' = st\<lparr>memalloc := memalloc st
           @ [\<lparr>val = theta_dbl ! 0, adj = 0, derived = Some n\<rparr>] @ map plain_vari theta_dbl,
         var_stack := var_stack st @ [this],
         var_nochain_stack := var_nochain_stack st @ outs\<rparr>"
  have ctor: "lgp_newton_solver_vari M (get_phi system) (system_dbl system st) theta_dbl st
      = Inr (this, st')"
    unfolding st'_def n_def outs_def this_def
    by (rule lgp_newton_solver_vari_closed[OF assms(3)])
  have d: "derived (memalloc st' ! this) = Some n"
    by (simp add: st'_def this_def nth_append)
  have lo: "length outs = length theta_dbl"
    unfolding outs_def by (simp only: length_upt add_diff_cancel_left')
  have "map (\<lambda>i. \<lparr>vi = theta n ! i\<rparr>) [0..<length theta_dbl] = map (\<lambda>a. \<lparr>vi = a\<rparr>) outs"
    using map_nth_handles[of outs] by (simp add: n_def lo)
  then have "lgp_newton_solver_var A M theta_0 system tol max_num_steps ls st
      = Some (Inr (map (\<lambda>a. \<lparr>vi = a\<rparr>) outs, st'))"
    using assms(1,2) by (simp add: lgp_newton_solver_var_def ctor d)
  then show ?thesis
    unfolding st'_def n_def outs_def this_def .
qed

subsection \<open>The example\<close>

text \<open>
  The copy of \<open>linear_system_var\<close> in the state \<open>two_leaves\<close> has the value 4 of the leaf at
  address 1 as its global parameter. From \<open>[2, 9 / 4]\<close> the first update reaches the root
  \<open>[2, 2]\<close>, and the second round, which finds the gradient \<open>[0, 0]\<close> there, returns it.
\<close>

lemma linear_solve:
  "lgp_newton_solver exact linear_functions [2, 9 / 4]
      \<lparr>get_phi = 4, get_n_samples = [1, 2], get_sums = [8, 16]\<rparr> (1 / 1000) 100 False
     = Some (Inr [2, 2])"
proof -
  define system :: "real lgp_conditional_system"
    where "system = \<lparr>get_phi = 4, get_n_samples = [1, 2], get_sums = [8, 16]\<rparr>"
  have g0: "cond_gradient linear_functions system [2, 9 / 4] = [0, - 2]"
    and g1: "cond_gradient linear_functions system [2, 2] = [0, 0]"
    and h: "cond_hessian linear_functions system t = [- 4, - 8]" for t
    by (simp_all add: linear_functions_def system_def)
  have u0: "newton_update exact linear_functions system False [2, 9 / 4] = Some [2, 2]"
    by (simp add: newton_update_def g0 h Let_def) (simp add: exact_def)
  have u1: "newton_update exact linear_functions system False [2, 2] = Some [2, 2]"
    by (simp add: newton_update_def g1 h Let_def) (simp add: exact_def)
  have n0: "\<not> dbl_less_eq exact (vec_norm exact (cond_gradient linear_functions system [2, 9 / 4]))
              (1 / 1000)"
    by (simp add: g0) (simp add: exact_def)
  have n1: "dbl_less_eq exact (vec_norm exact (cond_gradient linear_functions system [2, 2]))
              (1 / 1000)"
    by (simp add: g1) (simp add: exact_def)
  have "newton_for exact linear_functions system (1 / 1000) 100 False 0 [2, 9 / 4]
      = newton_for exact linear_functions system (1 / 1000) 100 False (0 + 1) [2, 2]"
    using n0 by (subst newton_for.simps) (simp add: u0 INT_MAX_def)
  also have "\<dots> = Some (Inr [2, 2])"
    using n1 by (subst newton_for.simps) (simp add: u1)
  finally show ?thesis by (simp add: lgp_newton_solver_def system_def)
qed

lemma linear_throw:
  "lgp_newton_solver exact linear_functions [2, 9 / 4] system (1 / 1000) 0 False
     = Some (Inl (evaluation_error ''lgp_newton_solver: max number of iterations:0 exceeded.''))"
  unfolding lgp_newton_solver_def
  by (subst newton_for.simps)
     (simp add: max_steps_message_def show_long_def show_nat.simps digit_def)

text \<open>
  Claim C3. The solver for a \<open>var\<close> global parameter runs the \<open>double\<close> solver on a copy of
  the system that has the value of the global parameter in place of the parameter; the
  \<open>double\<close> solver has no access to the arena or the tape. If that throws or does not
  return, so does the solver, and no node exists. Otherwise the state after the call is
  the state before it with one solver node on the tape, whose \<open>J_\<close> is \<open>solver_gradient\<close>
  of the copy at the solution, and with the node's plain output nodes, to which the
  returned handles point. No \<open>chain\<close> changes the members of any node, so \<open>J_\<close> is computed
  once, in the constructor.
\<close>

theorem var_solver_records_one_node:
  assumes "vi (get_phi system) < length (memalloc st)"
  shows "(let copy = \<lparr>get_phi = val (memalloc st ! vi (get_phi system)),
                      get_n_samples = get_n_samples system, get_sums = get_sums system\<rparr>
    in (\<forall>e. lgp_newton_solver A M theta_0 copy tol max_num_steps ls = Some (Inl e)
          \<longrightarrow> lgp_newton_solver_var A M theta_0 system tol max_num_steps ls st = Some (Inl e))
     \<and> (lgp_newton_solver A M theta_0 copy tol max_num_steps ls = None
          \<longrightarrow> lgp_newton_solver_var A M theta_0 system tol max_num_steps ls st = None)
     \<and> (\<forall>theta_dbl.
          lgp_newton_solver A M theta_0 copy tol max_num_steps ls = Some (Inr theta_dbl)
          \<and> theta_dbl \<noteq> []
          \<longrightarrow> lgp_newton_solver_var A M theta_0 system tol max_num_steps ls st =
                Some (Inr (map (\<lambda>a. \<lparr>vi = a\<rparr>)
                             [length (memalloc st) + 1 ..<
                              length (memalloc st) + 1 + length theta_dbl],
                   st\<lparr>memalloc := memalloc st
                        @ [\<lparr>val = theta_dbl ! 0, adj = 0,
                            derived = Some \<lparr>phi = [vi (get_phi system)],
                              theta_size = length theta_dbl,
                              theta = [length (memalloc st) + 1 ..<
                                       length (memalloc st) + 1 + length theta_dbl],
                              J = solver_gradient M copy theta_dbl\<rparr>\<rparr>]
                        @ map plain_vari theta_dbl,
                      var_stack := var_stack st @ [length (memalloc st)],
                      var_nochain_stack := var_nochain_stack st
                        @ [length (memalloc st) + 1 ..<
                           length (memalloc st) + 1 + length theta_dbl]\<rparr>))))
   \<and> (\<forall>this st2 st3. chain_vari this st2 = Inr st3
        \<longrightarrow> map derived (memalloc st3) = map derived (memalloc st2))"
proof (rule conjI)
  show "\<forall>this st2 st3. chain_vari this st2 = Inr st3
        \<longrightarrow> map derived (memalloc st3) = map derived (memalloc st2)"
  proof (intro allI impI)
    fix this st2 st3
    assume "chain_vari this st2 = Inr st3"
    from chain_vari_frame[OF this]
    show "map derived (memalloc st3) = map derived (memalloc st2)"
      by (simp add: same_nodes_def)
  qed
next
  show "let copy = \<lparr>get_phi = val (memalloc st ! vi (get_phi system)),
                      get_n_samples = get_n_samples system, get_sums = get_sums system\<rparr>
    in (\<forall>e. lgp_newton_solver A M theta_0 copy tol max_num_steps ls = Some (Inl e)
          \<longrightarrow> lgp_newton_solver_var A M theta_0 system tol max_num_steps ls st = Some (Inl e))
     \<and> (lgp_newton_solver A M theta_0 copy tol max_num_steps ls = None
          \<longrightarrow> lgp_newton_solver_var A M theta_0 system tol max_num_steps ls st = None)
     \<and> (\<forall>theta_dbl.
          lgp_newton_solver A M theta_0 copy tol max_num_steps ls = Some (Inr theta_dbl)
          \<and> theta_dbl \<noteq> []
          \<longrightarrow> lgp_newton_solver_var A M theta_0 system tol max_num_steps ls st =
                Some (Inr (map (\<lambda>a. \<lparr>vi = a\<rparr>)
                             [length (memalloc st) + 1 ..<
                              length (memalloc st) + 1 + length theta_dbl],
                   st\<lparr>memalloc := memalloc st
                        @ [\<lparr>val = theta_dbl ! 0, adj = 0,
                            derived = Some \<lparr>phi = [vi (get_phi system)],
                              theta_size = length theta_dbl,
                              theta = [length (memalloc st) + 1 ..<
                                       length (memalloc st) + 1 + length theta_dbl],
                              J = solver_gradient M copy theta_dbl\<rparr>\<rparr>]
                        @ map plain_vari theta_dbl,
                      var_stack := var_stack st @ [length (memalloc st)],
                      var_nochain_stack := var_nochain_stack st
                        @ [length (memalloc st) + 1 ..<
                           length (memalloc st) + 1 + length theta_dbl]\<rparr>)))"
    unfolding Let_def system_dbl_copy[symmetric]
    using var_solver_passes_on[OF assms] var_solver_constructs[OF assms] by blast
qed

theorem var_solver_records_one_node_witness:
  "lgp_newton_solver_var exact linear_functions [2, 9 / 4] linear_system_var (1 / 1000) 100 False
      two_leaves
     = Some (Inr ([\<lparr>vi = 3\<rparr>, \<lparr>vi = 4\<rparr>],
          \<lparr>memalloc = [plain_vari 3, plain_vari 4,
                  \<lparr>val = 2, adj = 0,
                   derived = Some \<lparr>phi = [1], theta_size = 2, theta = [3, 4],
                                   J = [- (1 / 2), - (1 / 2)]\<rparr>\<rparr>,
                  plain_vari 2, plain_vari 2],
           var_stack = [0, 1, 2], var_nochain_stack = [3, 4]\<rparr>))
   \<and> lgp_newton_solver_var exact linear_functions [2, 9 / 4] linear_system_var (1 / 1000) 0 False
       two_leaves
     = Some (Inl (evaluation_error ''lgp_newton_solver: max number of iterations:0 exceeded.''))
   \<and> lgp_newton_solver_var exact uphill_functions [0] linear_system_var (1 / 1000) 100 True
       two_leaves
     = None"
proof -
  define copy :: "real lgp_conditional_system"
    where "copy = \<lparr>get_phi = val (memalloc two_leaves ! vi (get_phi linear_system_var)),
                   get_n_samples = get_n_samples linear_system_var,
                   get_sums = get_sums linear_system_var\<rparr>"
  have c: "copy = \<lparr>get_phi = 4, get_n_samples = [1, 2], get_sums = [8, 16]\<rparr>"
    by (simp add: copy_def linear_system_var_def two_leaves_def plain_vari_def)
  have v: "vi (get_phi linear_system_var) < length (memalloc two_leaves)"
    by (simp add: linear_system_var_def two_leaves_def)
  have s: "lgp_newton_solver exact linear_functions [2, 9 / 4] copy (1 / 1000) 100 False
             = Some (Inr [2, 2]) \<and> [2, 2::real] \<noteq> []"
    by (simp add: c linear_solve)
  have t: "lgp_newton_solver exact linear_functions [2, 9 / 4] copy (1 / 1000) 0 False
      = Some (Inl (evaluation_error ''lgp_newton_solver: max number of iterations:0 exceeded.''))"
    by (rule linear_throw)
  have n: "lgp_newton_solver exact uphill_functions [0] copy (1 / 1000) 100 True = None"
    by (rule uphill_solve)
  have u: "[length (memalloc two_leaves) + 1 ..<
            length (memalloc two_leaves) + 1 + length [2, 2::real]] = [3, 4]"
    by (simp add: two_leaves_def upt_conv_Cons)
  have j: "solver_gradient linear_functions copy [2, 2] = [- (1 / 2), - (1 / 2)]"
    by (simp add: c linear_functions_def)
  from var_solver_records_one_node[OF v, of exact linear_functions "[2, 9 / 4]" "1 / 1000" 100 False]
    s
  have "lgp_newton_solver_var exact linear_functions [2, 9 / 4] linear_system_var (1 / 1000) 100
      False two_leaves =
      Some (Inr (map (\<lambda>a. \<lparr>vi = a\<rparr>)
                   [length (memalloc two_leaves) + 1 ..<
                    length (memalloc two_leaves) + 1 + length [2, 2::real]],
         two_leaves\<lparr>memalloc := memalloc two_leaves
              @ [\<lparr>val = [2, 2] ! 0, adj = 0,
                  derived = Some \<lparr>phi = [vi (get_phi linear_system_var)],
                    theta_size = length [2, 2::real],
                    theta = [length (memalloc two_leaves) + 1 ..<
                             length (memalloc two_leaves) + 1 + length [2, 2::real]],
                    J = solver_gradient linear_functions copy [2, 2]\<rparr>\<rparr>]
              @ map plain_vari [2, 2],
            var_stack := var_stack two_leaves @ [length (memalloc two_leaves)],
            var_nochain_stack := var_nochain_stack two_leaves
              @ [length (memalloc two_leaves) + 1 ..<
                 length (memalloc two_leaves) + 1 + length [2, 2::real]]\<rparr>))"
    unfolding Let_def copy_def[symmetric] by blast
  then have returns: "lgp_newton_solver_var exact linear_functions [2, 9 / 4] linear_system_var
      (1 / 1000) 100 False two_leaves
     = Some (Inr ([\<lparr>vi = 3\<rparr>, \<lparr>vi = 4\<rparr>],
          \<lparr>memalloc = [plain_vari 3, plain_vari 4,
                  \<lparr>val = 2, adj = 0,
                   derived = Some \<lparr>phi = [1], theta_size = 2, theta = [3, 4],
                                   J = [- (1 / 2), - (1 / 2)]\<rparr>\<rparr>,
                  plain_vari 2, plain_vari 2],
           var_stack = [0, 1, 2], var_nochain_stack = [3, 4]\<rparr>))"
    unfolding u j
    by (simp add: two_leaves_def linear_system_var_def)
  from var_solver_records_one_node[OF v, of exact linear_functions "[2, 9 / 4]" "1 / 1000" 0 False]
    t
  have throws: "lgp_newton_solver_var exact linear_functions [2, 9 / 4] linear_system_var
      (1 / 1000) 0 False two_leaves
     = Some (Inl (evaluation_error ''lgp_newton_solver: max number of iterations:0 exceeded.''))"
    unfolding Let_def copy_def[symmetric] by blast
  from var_solver_records_one_node[OF v, of exact uphill_functions "[0]" "1 / 1000" 100 True] n
  have never: "lgp_newton_solver_var exact uphill_functions [0] linear_system_var (1 / 1000) 100
      True two_leaves = None"
    unfolding Let_def copy_def[symmetric] by blast
  from returns throws never show ?thesis by blast
qed

end
